theory Spec2Isabelle
  imports Main
begin

section \<open>Python values shared by the whole development\<close>

text \<open>Exceptions raised by the code of \<^verbatim>\<open>anndata/_core/views.py\<close> and by the Python
  and numpy primitives it calls. Every raise is a value \<open>Inl e\<close> of a sum type.\<close>

datatype pyerr =
    AttributeError string
  | KeyError
  | IndexError
  | TypeError
  | ValueError
  | NotImplementedError string
  | RecursionError

section \<open>Index composition\<close>

subsection \<open>Python slices and ranges\<close>

text \<open>A \<^verbatim>\<open>slice(start, stop, step)\<close> object; each field may be \<^verbatim>\<open>None\<close>.\<close>

datatype pyslice = PySlice (sl_start: "int option") (sl_stop: "int option") (sl_step: "int option")

text \<open>\<^verbatim>\<open>slice.indices(l)\<close>: the normalised start, stop and step for a sequence of
  length \<open>l\<close>. A zero step raises \<^verbatim>\<open>ValueError\<close>.\<close>

definition slice_indices :: "pyslice \<Rightarrow> nat \<Rightarrow> pyerr + (int \<times> int \<times> int)" where
  "slice_indices sl l =
     (let st = (case sl_step sl of None \<Rightarrow> 1 | Some t \<Rightarrow> t) in
      if st = 0 then Inl ValueError
      else
        let n = int l;
            lower = (if st < 0 then - 1 else 0);
            upper = (if st < 0 then n - 1 else n);
            s = (case sl_start sl of
                   None \<Rightarrow> (if st < 0 then upper else lower)
                 | Some a \<Rightarrow> (if a < 0 then max (a + n) lower else min a upper));
            e = (case sl_stop sl of
                   None \<Rightarrow> (if st < 0 then lower else upper)
                 | Some b \<Rightarrow> (if b < 0 then max (b + n) lower else min b upper))
        in Inr (s, e, st))"

text \<open>A \<^verbatim>\<open>range(start, stop, step)\<close> object with a non-zero step keeps its three
  arguments as attributes; its length and its elements are computed from them.\<close>

datatype pyrange = PyRange (r_start: int) (r_stop: int) (r_step: int)

definition range_len :: "pyrange \<Rightarrow> nat" where
  "range_len r =
     (if 0 < r_step r \<and> r_start r < r_stop r
        then nat ((r_stop r - r_start r - 1) div r_step r + 1)
      else if r_step r < 0 \<and> r_stop r < r_start r
        then nat ((r_start r - r_stop r - 1) div (- r_step r) + 1)
      else 0)"

definition range_elems :: "pyrange \<Rightarrow> int list" where
  "range_elems r = map (\<lambda>k. r_start r + int k * r_step r) [0..<range_len r]"

text \<open>\<^verbatim>\<open>range(*sl.indices(l))\<close>.\<close>

definition range_of_slice :: "pyslice \<Rightarrow> nat \<Rightarrow> pyerr + pyrange" where
  "range_of_slice sl l =
     (case slice_indices sl l of
        Inl e \<Rightarrow> Inl e
      | Inr (s, e, st) \<Rightarrow> Inr (PyRange s e st))"

text \<open>\<^verbatim>\<open>r[sl]\<close> for a range \<open>r\<close> and a slice \<open>sl\<close>: the slice is normalised against
  \<^verbatim>\<open>len(r)\<close> and the result is again a range, whose start and stop are the items of
  \<open>r\<close> at the normalised start and stop and whose step is the product of the steps.\<close>

definition range_getitem_slice :: "pyrange \<Rightarrow> pyslice \<Rightarrow> pyerr + pyrange" where
  "range_getitem_slice r sl =
     (case slice_indices sl (range_len r) of
        Inl e \<Rightarrow> Inl e
      | Inr (s, e, st) \<Rightarrow>
          Inr (PyRange (r_start r + s * r_step r) (r_start r + e * r_step r) (r_step r * st)))"

subsection \<open>Indices and one-dimensional indexing\<close>

text \<open>A one-dimensional numpy array that is not boolean-typed: an array of an integer
  dtype with its entries, an array of dtype \<^verbatim>\<open>float64\<close> (only its length is kept, its
  entries are not modelled), or an array of dtype \<^verbatim>\<open>object\<close> holding Python integers.\<close>

datatype numarr = IntArr "int list" | FloatArr nat | ObjArr "int list"

text \<open>A one-dimensional numpy array is boolean-typed or not.\<close>

datatype ndarray = BoolArr "bool list" | NumArr numarr

text \<open>The values that reach index composition: a slice, an array (boolean mask, integer
  positions, or an array of another dtype), an integer scalar, and a \<^verbatim>\<open>float64\<close> scalar
  (which indexing a \<^verbatim>\<open>float64\<close> array by a scalar yields).\<close>

datatype index = Slice pyslice | Array ndarray | Scalar int | FloatScalar

text \<open>\<^verbatim>\<open>np.where(mask)[0]\<close>: the positions where the mask is true, in increasing
  order.\<close>

definition np_where :: "bool list \<Rightarrow> nat list" where
  "np_where m = filter (\<lambda>i. m ! i) [0..<length m]"

text \<open>A single integer index into a sequence of length \<open>n\<close>: negative values count from
  the end, anything outside \<open>-n \<le> i < n\<close> raises \<^verbatim>\<open>IndexError\<close>.\<close>

definition norm_index :: "nat \<Rightarrow> int \<Rightarrow> pyerr + nat" where
  "norm_index n i =
     (let j = (if i < 0 then i + int n else i)
      in if 0 \<le> j \<and> j < int n then Inr (nat j) else Inl IndexError)"

fun sequence_err :: "(pyerr + 'a) list \<Rightarrow> pyerr + 'a list" where
  "sequence_err [] = Inr []"
| "sequence_err (x # xs) =
     (case x of
        Inl e \<Rightarrow> Inl e
      | Inr y \<Rightarrow> (case sequence_err xs of Inl e \<Rightarrow> Inl e | Inr ys \<Rightarrow> Inr (y # ys)))"

text \<open>The positions of a sequence of length \<open>n\<close> that an index selects, in the order of
  selection. A slice selects the elements of \<^verbatim>\<open>range(*sl.indices(n))\<close>; a boolean mask
  must have length \<open>n\<close> and selects the positions where it is true; an integer array
  selects each of its (normalised) entries; a scalar selects one position. numpy refuses
  an array of dtype \<^verbatim>\<open>float64\<close> or \<^verbatim>\<open>object\<close> and a \<^verbatim>\<open>float64\<close> scalar as an index
  (\<^verbatim>\<open>IndexError\<close>).\<close>

fun positions :: "index \<Rightarrow> nat \<Rightarrow> pyerr + nat list" where
  "positions (Slice sl) n =
     (case range_of_slice sl n of
        Inl e \<Rightarrow> Inl e
      | Inr r \<Rightarrow> Inr (map nat (range_elems r)))"
| "positions (Array (BoolArr m)) n =
     (if length m = n then Inr (np_where m) else Inl IndexError)"
| "positions (Array (NumArr (IntArr a))) n = sequence_err (map (norm_index n) a)"
| "positions (Array (NumArr (FloatArr k))) n = Inl IndexError"
| "positions (Array (NumArr (ObjArr a))) n = Inl IndexError"
| "positions (Scalar i) n =
     (case norm_index n i of Inl e \<Rightarrow> Inl e | Inr j \<Rightarrow> Inr [j])"
| "positions FloatScalar n = Inl IndexError"

text \<open>The elements \<^verbatim>\<open>base[idx]\<close> of a sequence selected by an index. A scalar index
  selects the one element at that position (subsetting an axis by a scalar keeps the
  axis, with length one).\<close>

definition getitem :: "'a list \<Rightarrow> index \<Rightarrow> pyerr + 'a list" where
  "getitem base idx =
     (case positions idx (length base) of
        Inl e \<Rightarrow> Inl e
      | Inr ps \<Rightarrow> Inr (map (\<lambda>p. base ! p) ps))"

text \<open>\<^verbatim>\<open>a[new]\<close> for an integer position array \<open>a\<close>, read as an index again: a scalar
  \<open>new\<close> gives the scalar entry, every other kind gives an integer array.\<close>

definition intarr_getitem :: "int list \<Rightarrow> index \<Rightarrow> pyerr + index" where
  "intarr_getitem a new =
     (case getitem a new of
        Inl e \<Rightarrow> Inl e
      | Inr xs \<Rightarrow>
          (case new of
             Scalar i \<Rightarrow> Inr (Scalar (hd xs))
           | _ \<Rightarrow> Inr (Array (NumArr (IntArr xs)))))"

text \<open>\<^verbatim>\<open>a[new]\<close> for an array \<open>a\<close> that is not boolean-typed. The result keeps the dtype
  of \<open>a\<close>: a scalar \<open>new\<close> gives an entry (an integer from an integer or object array, a
  \<^verbatim>\<open>float64\<close> scalar from a \<^verbatim>\<open>float64\<close> array), every other kind gives an array.\<close>

fun numarr_getitem :: "numarr \<Rightarrow> index \<Rightarrow> pyerr + index" where
  "numarr_getitem (IntArr a) new = intarr_getitem a new"
| "numarr_getitem (FloatArr k) new =
     (case positions new k of
        Inl e \<Rightarrow> Inl e
      | Inr ps \<Rightarrow>
          (case new of
             Scalar i \<Rightarrow> Inr FloatScalar
           | _ \<Rightarrow> Inr (Array (NumArr (FloatArr (length ps))))))"
| "numarr_getitem (ObjArr a) new =
     (case getitem a new of
        Inl e \<Rightarrow> Inl e
      | Inr xs \<Rightarrow>
          (case new of
             Scalar i \<Rightarrow> Inr (Scalar (hd xs))
           | _ \<Rightarrow> Inr (Array (NumArr (ObjArr xs)))))"

text \<open>The dtype numpy gives to an array built from Python integers. An integer that fits
  a signed 64-bit integer is an \<^verbatim>\<open>int64\<close>; one from \<open>2^63\<close> up to \<open>2^64 - 1\<close> is a
  \<^verbatim>\<open>uint64\<close>; any other is a Python object.\<close>

definition fits_int64 :: "int \<Rightarrow> bool" where
  "fits_int64 x = (- (2 ^ 63) \<le> x \<and> x < 2 ^ 63)"

definition fits_uint64 :: "int \<Rightarrow> bool" where
  "fits_uint64 x = (0 \<le> x \<and> x < 2 ^ 64)"

datatype dtype = Int64 | Float64 | Object

text \<open>\<^verbatim>\<open>np.arange(start, stop, step)\<close> on Python integers takes the common dtype of
  \<^verbatim>\<open>int64\<close> and of its three arguments: \<^verbatim>\<open>int64\<close> when all three fit, \<^verbatim>\<open>object\<close> when
  one of them is outside both 64-bit ranges, and otherwise \<^verbatim>\<open>float64\<close> (the common
  dtype of \<^verbatim>\<open>int64\<close> and \<^verbatim>\<open>uint64\<close>).\<close>

definition arange_dtype :: "pyrange \<Rightarrow> dtype" where
  "arange_dtype r =
     (if fits_int64 (r_start r) \<and> fits_int64 (r_stop r) \<and> fits_int64 (r_step r) then Int64
      else if (fits_int64 (r_start r) \<or> fits_uint64 (r_start r)) \<and>
              (fits_int64 (r_stop r) \<or> fits_uint64 (r_stop r)) \<and>
              (fits_int64 (r_step r) \<or> fits_uint64 (r_step r)) then Float64
      else Object)"

text \<open>\<^verbatim>\<open>np.arange(start, stop, step)\<close> for the three attributes of a range with a
  non-zero step. numpy takes the length from the double-precision quotient
  \<^verbatim>\<open>(stop - start) / step\<close>, rounded up; for \<open>|stop - start| < 2^53\<close> that is the length
  of the range, which the model uses.\<close>

definition np_arange :: "pyrange \<Rightarrow> numarr" where
  "np_arange r =
     (case arange_dtype r of
        Int64 \<Rightarrow> IntArr (range_elems r)
      | Float64 \<Rightarrow> FloatArr (range_len r)
      | Object \<Rightarrow> ObjArr (range_elems r))"

text \<open>\<^verbatim>\<open>np.array([old])\<close> for an integer \<open>old\<close>: an integer array (of dtype \<^verbatim>\<open>int64\<close>,
  or \<^verbatim>\<open>uint64\<close> for an entry from \<open>2^63\<close> up to \<open>2^64 - 1\<close>) or, outside both ranges,
  an object array.\<close>

definition np_array1 :: "int \<Rightarrow> numarr" where
  "np_array1 old = (if fits_int64 old \<or> fits_uint64 old then IntArr [old] else ObjArr [old])"

subsection \<open>The composition functions of the source\<close>

text \<open>The second half of \<^verbatim>\<open>_resolve_idx_slice_slice\<close> (\<^verbatim>\<open># Convert back to slice\<close>):
  from the attributes of the range \<open>r\<close>, with \<^verbatim>\<open>stop = start\<close> when \<^verbatim>\<open>len(r) == 0\<close>,
  else \<^verbatim>\<open>stop = None\<close> when \<^verbatim>\<open>stop < 0\<close>.\<close>

definition slice_of_range :: "pyrange \<Rightarrow> pyslice" where
  "slice_of_range r =
     PySlice (Some (r_start r))
       (if range_len r = 0 then Some (r_start r)
        else if r_stop r < 0 then None
        else Some (r_stop r))
       (Some (r_step r))"

text \<open>\<^verbatim>\<open>_resolve_idx_slice_slice(old, new, l)\<close>:
  \<^verbatim>\<open>r = range(*old.indices(l))[new]\<close>, then the conversion back to a slice.\<close>

definition resolve_idx_slice_slice :: "pyslice \<Rightarrow> pyslice \<Rightarrow> nat \<Rightarrow> pyerr + index" where
  "resolve_idx_slice_slice old new l =
     (case range_of_slice old l of
        Inl e \<Rightarrow> Inl e
      | Inr r0 \<Rightarrow>
          (case range_getitem_slice r0 new of
             Inl e \<Rightarrow> Inl e
           | Inr r \<Rightarrow> Inr (Slice (slice_of_range r))))"

text \<open>\<^verbatim>\<open>np.arange(*old.indices(l))\<close>.\<close>

definition arange_of_slice :: "pyslice \<Rightarrow> nat \<Rightarrow> pyerr + numarr" where
  "arange_of_slice sl l =
     (case slice_indices sl l of
        Inl e \<Rightarrow> Inl e
      | Inr (s, e, st) \<Rightarrow> Inr (np_arange (PyRange s e st)))"

text \<open>\<^verbatim>\<open>_resolve_idx_slice(old, new, l)\<close>.\<close>

definition resolve_idx_slice :: "pyslice \<Rightarrow> index \<Rightarrow> nat \<Rightarrow> pyerr + index" where
  "resolve_idx_slice old new l =
     (case new of
        Slice new_sl \<Rightarrow> resolve_idx_slice_slice old new_sl l
      | _ \<Rightarrow>
          (case arange_of_slice old l of
             Inl e \<Rightarrow> Inl e
           | Inr a \<Rightarrow> numarr_getitem a new))"

text \<open>\<^verbatim>\<open>_resolve_idx_ndarray(old, new, l)\<close>: a boolean-typed \<open>old\<close>
  (\<^verbatim>\<open>is_bool_dtype(old)\<close>) is replaced by \<^verbatim>\<open>np.where(old)[0]\<close>, an \<^verbatim>\<open>int64\<close> array,
  first; then \<^verbatim>\<open>old[new]\<close>.\<close>

fun resolve_idx_ndarray :: "ndarray \<Rightarrow> index \<Rightarrow> nat \<Rightarrow> pyerr + index" where
  "resolve_idx_ndarray (BoolArr m) new l = numarr_getitem (IntArr (map int (np_where m))) new"
| "resolve_idx_ndarray (NumArr a) new l = numarr_getitem a new"

text \<open>\<^verbatim>\<open>_resolve_idx_scalar(old, new, l)\<close>: \<^verbatim>\<open>np.array([old])[new]\<close>.\<close>

definition resolve_idx_scalar :: "int \<Rightarrow> index \<Rightarrow> nat \<Rightarrow> pyerr + index" where
  "resolve_idx_scalar old new l = numarr_getitem (np_array1 old) new"

text \<open>\<^verbatim>\<open>_resolve_idx(old, new, l)\<close>: single dispatch on the type of \<open>old\<close>. A
  \<^verbatim>\<open>float64\<close> scalar takes the generic fallback \<^verbatim>\<open>old[new]\<close>, and a numpy scalar cannot
  be indexed by a slice, an array or a scalar (\<^verbatim>\<open>IndexError\<close>).\<close>

fun resolve_idx :: "index \<Rightarrow> index \<Rightarrow> nat \<Rightarrow> pyerr + index" where
  "resolve_idx (Slice old) new l = resolve_idx_slice old new l"
| "resolve_idx (Array old) new l = resolve_idx_ndarray old new l"
| "resolve_idx (Scalar old) new l = resolve_idx_scalar old new l"
| "resolve_idx FloatScalar new l = Inl IndexError"


section \<open>Views with copy-on-modify semantics\<close>

subsection \<open>Objects, containers and the store\<close>

text \<open>Objects live in a store and are referred to by their address. A store is a list of
  cells, the address of a cell is its position, and allocation appends a cell, so an
  address that is in use is never given out again.\<close>

type_synonym addr = nat

text \<open>A key of an item access: an integer position or a string label.\<close>

datatype key = KInt int | KStr string

text \<open>What a container holds. The native containers (dense array, sparse matrix, table,
  dict) are kept to the shapes that item access needs: a one-dimensional array of
  integers, and a mapping from keys to nested contents (a dict of containers, the columns
  of a table). \<open>Atom\<close> is a single value, as read from an array or assigned into one.\<close>

datatype content = Atom int | Dense "int list" | Assoc "(key \<times> content) list"

text \<open>The classes of the objects that the module handles: the native container classes,
  the view classes defined in the module, and any other class. \<open>OtherClass n\<close> is a class
  named \<open>n\<close> that has none of the native container classes among its bases.\<close>

datatype pyclass =
    NdArray | DataFrame | CsrMatrix | CscMatrix | PyDict | ZappyArray
  | ArrayView | DataFrameView | SparseCSRView | SparseCSCView | DictView
  | OtherClass string

text \<open>Modelled from the spec: \<^verbatim>\<open>ElementRef\<close> (imported from \<^verbatim>\<open>.access\<close>, not in the module)
  is the Reference Descriptor, the triple of the root object, the attribute name and the
  path of keys. The module builds it by \<^verbatim>\<open>ElementRef(*view_args)\<close>, unpacks it into
  three and reads its field \<^verbatim>\<open>attrname\<close>.\<close>

record elementref =
  parent :: addr
  attrname :: string
  keys :: "key list"

text \<open>The attribute \<^verbatim>\<open>_view_args\<close> of an object: absent, \<^verbatim>\<open>None\<close>, or a descriptor.\<close>

datatype view_attr = NoAttr | AttrNone | AttrRef elementref

text \<open>A container object: its class, its \<^verbatim>\<open>_view_args\<close> and the address of the buffer
  that holds its data. Two objects with the same buffer address share their data, as an
  array and a numpy view of it do.\<close>

record pyobj =
  cls :: pyclass
  view_args :: view_attr
  buf :: addr

text \<open>Modelled from the spec: the root object (\<^verbatim>\<open>AnnData\<close>, not in the module). It maps
  attribute names to container objects, and \<^verbatim>\<open>_adata_ref\<close> is the object it is a view
  of, or \<^verbatim>\<open>None\<close> when it is not a view.\<close>

record anndata =
  attrs :: "(string \<times> addr) list"
  adata_ref :: "addr option"

datatype cell = Obj pyobj | Buf content | Root anndata

text \<open>The observable effects, in the order they happen: a warning, a copy of a root
  (root, copy), a native item assignment or a native drop on the data of a buffer at a
  path, and a root adopting a copy (root, copy).\<close>

datatype event =
    Warned string
  | Copied addr addr
  | Assigned addr "key list" key content
  | Dropped addr "key list" "key list"
  | InitAsActual addr addr

record state =
  heap :: "cell list"
  trace :: "event list"

definition cell_at :: "state \<Rightarrow> addr \<Rightarrow> cell option" where
  "cell_at s a = (if a < length (heap s) then Some (heap s ! a) else None)"

definition alloc :: "state \<Rightarrow> cell \<Rightarrow> state \<times> addr" where
  "alloc s c = (s\<lparr>heap := heap s @ [c]\<rparr>, length (heap s))"

definition emit :: "state \<Rightarrow> event \<Rightarrow> state" where
  "emit s e = s\<lparr>trace := trace s @ [e]\<rparr>"

subsection \<open>Native item access\<close>

text \<open>\<^verbatim>\<open>d[k]\<close> on the data of a native container: a missing key of a mapping raises
  \<^verbatim>\<open>KeyError\<close>, a position outside an array or a label on an array raises
  \<^verbatim>\<open>IndexError\<close>, and a single value cannot be indexed.\<close>

fun content_get :: "content \<Rightarrow> key \<Rightarrow> pyerr + content" where
  "content_get (Assoc kvs) k =
     (case map_of kvs k of None \<Rightarrow> Inl KeyError | Some c \<Rightarrow> Inr c)"
| "content_get (Dense xs) (KInt i) =
     (case norm_index (length xs) i of Inl e \<Rightarrow> Inl e | Inr j \<Rightarrow> Inr (Atom (xs ! j)))"
| "content_get (Dense xs) (KStr l) = Inl IndexError"
| "content_get (Atom v) k = Inl IndexError"

fun assoc_set :: "key \<Rightarrow> content \<Rightarrow> (key \<times> content) list \<Rightarrow> (key \<times> content) list" where
  "assoc_set k v [] = [(k, v)]"
| "assoc_set k v ((k', v') # kvs) =
     (if k = k' then (k, v) # kvs else (k', v') # assoc_set k v kvs)"

text \<open>\<^verbatim>\<open>d[k] = v\<close> on the data of a native container, in place: a mapping replaces or adds
  the entry; an array takes a single value at a position inside it (\<^verbatim>\<open>IndexError\<close>
  outside, \<^verbatim>\<open>ValueError\<close> for a value that is not a single value); a single value does
  not support item assignment.\<close>

fun content_set :: "content \<Rightarrow> key \<Rightarrow> content \<Rightarrow> pyerr + content" where
  "content_set (Assoc kvs) k v = Inr (Assoc (assoc_set k v kvs))"
| "content_set (Dense xs) (KInt i) (Atom v) =
     (case norm_index (length xs) i of Inl e \<Rightarrow> Inl e | Inr j \<Rightarrow> Inr (Dense (xs[j := v])))"
| "content_set (Dense xs) (KInt i) (Dense ys) = Inl ValueError"
| "content_set (Dense xs) (KInt i) (Assoc kvs) = Inl ValueError"
| "content_set (Dense xs) (KStr l) v = Inl IndexError"
| "content_set (Atom x) k v = Inl TypeError"

text \<open>\<^verbatim>\<open>df.drop(labels, inplace=True)\<close> on the data of a table, in place: every label must
  be present (\<^verbatim>\<open>KeyError\<close> otherwise) and its entry is removed.\<close>

fun content_drop :: "content \<Rightarrow> key list \<Rightarrow> pyerr + content" where
  "content_drop (Assoc kvs) ls =
     (if set ls \<subseteq> fst ` set kvs then Inr (Assoc (filter (\<lambda>kv. fst kv \<notin> set ls) kvs))
      else Inl KeyError)"
| "content_drop (Dense xs) ls = Inl TypeError"
| "content_drop (Atom v) ls = Inl TypeError"

text \<open>\<^verbatim>\<open>reduce(lambda d, k: d[k], keys, attr)\<close> on the data of \<^verbatim>\<open>attr\<close>.\<close>

fun reduce_getitem :: "content \<Rightarrow> key list \<Rightarrow> pyerr + content" where
  "reduce_getitem d [] = Inr d"
| "reduce_getitem d (k # ks) =
     (case content_get d k of Inl e \<Rightarrow> Inl e | Inr d' \<Rightarrow> reduce_getitem d' ks)"

text \<open>An in-place mutation \<open>f\<close> of the sub-container reached along a path: the sub-container
  is part of the data it was reached from, so the mutation shows there.\<close>

fun update_at :: "content \<Rightarrow> key list \<Rightarrow> (content \<Rightarrow> pyerr + content) \<Rightarrow> pyerr + content" where
  "update_at d [] f = f d"
| "update_at d (k # ks) f =
     (case content_get d k of
        Inl e \<Rightarrow> Inl e
      | Inr d' \<Rightarrow>
          (case update_at d' ks f of
             Inl e \<Rightarrow> Inl e
           | Inr d'' \<Rightarrow> content_set d k d''))"

text \<open>A sub-container inside the store: the object it is reached from and the path of keys
  from that object's data.\<close>

type_synonym location = "addr \<times> key list"

text \<open>The native \<^verbatim>\<open>container[idx] = value\<close> on a sub-container.\<close>

definition native_setitem :: "state \<Rightarrow> location \<Rightarrow> key \<Rightarrow> content \<Rightarrow> state \<times> (pyerr + unit)" where
  "native_setitem s loc idx value =
     (case cell_at s (fst loc) of
        Some (Obj ob) \<Rightarrow>
          (case cell_at s (buf ob) of
             Some (Buf d) \<Rightarrow>
               (case update_at d (snd loc) (\<lambda>c. content_set c idx value) of
                  Inl e \<Rightarrow> (s, Inl e)
                | Inr d' \<Rightarrow>
                    (emit (s\<lparr>heap := (heap s)[buf ob := Buf d']\<rparr>)
                       (Assigned (buf ob) (snd loc) idx value), Inr ()))
           | _ \<Rightarrow> (s, Inl TypeError))
      | _ \<Rightarrow> (s, Inl TypeError))"

text \<open>The native \<^verbatim>\<open>container.drop(labels, inplace=True)\<close> on a sub-container.\<close>

definition native_drop :: "state \<Rightarrow> location \<Rightarrow> key list \<Rightarrow> state \<times> (pyerr + unit)" where
  "native_drop s loc ls =
     (case cell_at s (fst loc) of
        Some (Obj ob) \<Rightarrow>
          (case cell_at s (buf ob) of
             Some (Buf d) \<Rightarrow>
               (case update_at d (snd loc) (\<lambda>c. content_drop c ls) of
                  Inl e \<Rightarrow> (s, Inl e)
                | Inr d' \<Rightarrow>
                    (emit (s\<lparr>heap := (heap s)[buf ob := Buf d']\<rparr>)
                       (Dropped (buf ob) (snd loc) ls), Inr ()))
           | _ \<Rightarrow> (s, Inl TypeError))
      | _ \<Rightarrow> (s, Inl TypeError))"

subsection \<open>The root object\<close>

text \<open>The data of a container object, when the object and its buffer are in the store.\<close>

definition obj_content :: "state \<Rightarrow> addr \<Rightarrow> content option" where
  "obj_content s a =
     (case cell_at s a of
        Some (Obj ob) \<Rightarrow> (case cell_at s (buf ob) of Some (Buf d) \<Rightarrow> Some d | _ \<Rightarrow> None)
      | _ \<Rightarrow> None)"

text \<open>A new container object of a class over a new buffer that holds the given data.\<close>

definition new_object :: "state \<Rightarrow> pyclass \<Rightarrow> view_attr \<Rightarrow> content \<Rightarrow> state \<times> addr" where
  "new_object s c va d =
     (case alloc s (Buf d) of
        (s1, b) \<Rightarrow> alloc s1 (Obj \<lparr>cls = c, view_args = va, buf = b\<rparr>))"

text \<open>The native container class that a view class derives from.\<close>

fun native_class :: "pyclass \<Rightarrow> pyclass" where
  "native_class ArrayView = NdArray"
| "native_class DataFrameView = DataFrame"
| "native_class SparseCSRView = CsrMatrix"
| "native_class SparseCSCView = CscMatrix"
| "native_class DictView = PyDict"
| "native_class c = c"

text \<open>Modelled from the spec: \<^verbatim>\<open>AnnData.copy()\<close> is not in the module. The spec requires a
  full independent copy of the root, deep enough that no storage is shared with the
  original, whose attributes are plain containers. Each attribute container is copied
  into a new plain container of the native class over a new buffer.\<close>

fun copy_attrs :: "state \<Rightarrow> (string \<times> addr) list \<Rightarrow> state \<times> (pyerr + (string \<times> addr) list)" where
  "copy_attrs s [] = (s, Inr [])"
| "copy_attrs s ((n, a) # rest) =
     (case cell_at s a of
        Some (Obj ob) \<Rightarrow>
          (case cell_at s (buf ob) of
             Some (Buf d) \<Rightarrow>
               (case new_object s (native_class (cls ob)) NoAttr d of
                  (s1, a') \<Rightarrow>
                    (case copy_attrs s1 rest of
                       (s2, Inl e) \<Rightarrow> (s2, Inl e)
                     | (s2, Inr as) \<Rightarrow> (s2, Inr ((n, a') # as))))
           | _ \<Rightarrow> (s, Inl TypeError))
      | _ \<Rightarrow> (s, Inl TypeError))"

definition anndata_copy :: "state \<Rightarrow> addr \<Rightarrow> state \<times> (pyerr + addr)" where
  "anndata_copy s r =
     (case cell_at s r of
        Some (Root ad) \<Rightarrow>
          (case copy_attrs s (attrs ad) of
             (s1, Inl e) \<Rightarrow> (s1, Inl e)
           | (s1, Inr as) \<Rightarrow>
               (case alloc s1 (Root \<lparr>attrs = as, adata_ref = None\<rparr>) of
                  (s2, new) \<Rightarrow> (emit s2 (Copied r new), Inr new)))
      | _ \<Rightarrow> (s, Inl (AttributeError ''copy'')))"

text \<open>Modelled from the spec: \<^verbatim>\<open>AnnData._init_as_actual(new)\<close> is not in the module. The
  root adopts the state of \<open>new\<close> as its own, in place, and no longer considers itself
  derived from anything.\<close>

definition init_as_actual :: "state \<Rightarrow> addr \<Rightarrow> addr \<Rightarrow> state \<times> (pyerr + unit)" where
  "init_as_actual s r new =
     (case cell_at s r of
        Some (Root ad) \<Rightarrow>
          (case cell_at s new of
             Some (Root adn) \<Rightarrow>
               (emit (s\<lparr>heap := (heap s)[r := Root \<lparr>attrs = attrs adn, adata_ref = None\<rparr>]\<rparr>)
                  (InitAsActual r new), Inr ())
           | _ \<Rightarrow> (s, Inl (AttributeError ''_init_as_actual'')))
      | _ \<Rightarrow> (s, Inl (AttributeError ''_init_as_actual'')))"

text \<open>\<^verbatim>\<open>getattr(root, name)\<close> for an attribute that holds a container.\<close>

definition py_getattr :: "state \<Rightarrow> addr \<Rightarrow> string \<Rightarrow> pyerr + addr" where
  "py_getattr s r name =
     (case cell_at s r of
        Some (Root ad) \<Rightarrow>
          (case map_of (attrs ad) name of
             None \<Rightarrow> Inl (AttributeError name)
           | Some a \<Rightarrow> Inr a)
      | _ \<Rightarrow> Inl (AttributeError name))"

subsection \<open>The mutation interceptor\<close>

text \<open>\<^verbatim>\<open>_SetItemMixin._update\<close> is a generator under \<^verbatim>\<open>@contextmanager\<close>. Its part before
  the \<^verbatim>\<open>yield\<close> unpacks \<^verbatim>\<open>self._view_args\<close> (which fails when the attribute is absent or
  \<^verbatim>\<open>None\<close>), copies the root, reads the attribute of the copy and follows the keys. It
  yields the sub-container; the copy \<open>new\<close> stays in the generator's frame.\<close>

definition update_enter :: "state \<Rightarrow> view_attr \<Rightarrow> state \<times> (pyerr + (location \<times> addr))" where
  "update_enter s va =
     (case va of
        NoAttr \<Rightarrow> (s, Inl (AttributeError ''_view_args''))
      | AttrNone \<Rightarrow> (s, Inl TypeError)
      | AttrRef er \<Rightarrow>
          (case anndata_copy s (parent er) of
             (s1, Inl e) \<Rightarrow> (s1, Inl e)
           | (s1, Inr new) \<Rightarrow>
               (case py_getattr s1 new (attrname er) of
                  Inl e \<Rightarrow> (s1, Inl e)
                | Inr attr \<Rightarrow>
                    (case obj_content s1 attr of
                       None \<Rightarrow> (s1, Inl TypeError)
                     | Some d \<Rightarrow>
                         (case reduce_getitem d (keys er) of
                            Inl e \<Rightarrow> (s1, Inl e)
                          | Inr c \<Rightarrow> (s1, Inr ((attr, keys er), new)))))))"

text \<open>The part of \<^verbatim>\<open>_update\<close> after the \<^verbatim>\<open>yield\<close>: \<^verbatim>\<open>adata_view._init_as_actual(new)\<close>.\<close>

definition update_exit :: "state \<Rightarrow> view_attr \<Rightarrow> addr \<Rightarrow> state \<times> (pyerr + unit)" where
  "update_exit s va new =
     (case va of
        AttrRef er \<Rightarrow> init_as_actual s (parent er) new
      | _ \<Rightarrow> (s, Inl TypeError))"

text \<open>\<^verbatim>\<open>with self._update() as container: body\<close>. The generator runs up to the \<^verbatim>\<open>yield\<close>;
  the body runs on the yielded sub-container. When the body completes, the generator is
  resumed and runs its part after the \<^verbatim>\<open>yield\<close>. When the body raises, the exception
  is thrown into the generator at the \<^verbatim>\<open>yield\<close>; \<^verbatim>\<open>_update\<close> has no \<^verbatim>\<open>try\<close> around it,
  so the exception leaves the generator there and the \<^verbatim>\<open>with\<close> statement raises it.\<close>

definition with_update ::
  "state \<Rightarrow> view_attr \<Rightarrow> (state \<Rightarrow> location \<Rightarrow> state \<times> (pyerr + unit)) \<Rightarrow> state \<times> (pyerr + unit)" where
  "with_update s va body =
     (case update_enter s va of
        (s1, Inl e) \<Rightarrow> (s1, Inl e)
      | (s1, Inr (container, new)) \<Rightarrow>
          (case body s1 container of
             (s2, Inl e) \<Rightarrow> (s2, Inl e)
           | (s2, Inr u) \<Rightarrow> update_exit s2 va new))"

text \<open>The text of the \<^verbatim>\<open>ImplicitModificationWarning\<close>.\<close>

definition warning_text :: "string \<Rightarrow> string" where
  "warning_text name =
     ''Trying to modify attribute `.'' @ name @ ''` of view, initializing view as actual.''"

text \<open>\<^verbatim>\<open>_SetItemMixin.__setitem__(self, idx, value)\<close>. Without a descriptor the native
  assignment of the base class runs on the object itself. With one, the warning is
  emitted and the assignment runs on the container that \<^verbatim>\<open>_update\<close> yields, which is a
  plain container of the copy.\<close>

definition setitem :: "state \<Rightarrow> addr \<Rightarrow> key \<Rightarrow> content \<Rightarrow> state \<times> (pyerr + unit)" where
  "setitem s self idx value =
     (case cell_at s self of
        Some (Obj ob) \<Rightarrow>
          (case view_args ob of
             NoAttr \<Rightarrow> (s, Inl (AttributeError ''_view_args''))
           | AttrNone \<Rightarrow> native_setitem s (self, []) idx value
           | AttrRef er \<Rightarrow>
               with_update (emit s (Warned (warning_text (attrname er)))) (view_args ob)
                 (\<lambda>s' container. native_setitem s' container idx value))
      | _ \<Rightarrow> (s, Inl TypeError))"

subsection \<open>The view variants\<close>

text \<open>\<^verbatim>\<open>getattr(obj, "_view_args", None)\<close>.\<close>

fun getattr_view_args :: "view_attr \<Rightarrow> view_attr" where
  "getattr_view_args NoAttr = AttrNone"
| "getattr_view_args va = va"

text \<open>\<^verbatim>\<open>ArrayView.__array_finalize__(self, obj)\<close>: when \<^verbatim>\<open>obj\<close> is not \<^verbatim>\<open>None\<close>, the
  \<^verbatim>\<open>_view_args\<close> of \<^verbatim>\<open>self\<close> is set to that of \<^verbatim>\<open>obj\<close>, or to \<^verbatim>\<open>None\<close> when \<^verbatim>\<open>obj\<close> has
  none.\<close>

definition array_finalize :: "state \<Rightarrow> addr \<Rightarrow> addr option \<Rightarrow> state" where
  "array_finalize s self obj =
     (case obj of
        None \<Rightarrow> s
      | Some t \<Rightarrow>
          (case cell_at s self of
             Some (Obj so) \<Rightarrow>
               s\<lparr>heap := (heap s)[self := Obj (so\<lparr>view_args :=
                     (case cell_at s t of
                        Some (Obj ot) \<Rightarrow> getattr_view_args (view_args ot)
                      | _ \<Rightarrow> AttrNone)\<rparr>)]\<rparr>
           | _ \<Rightarrow> s))"

text \<open>numpy's array-finalization protocol. numpy makes every array that it derives from an
  existing one (a view, a slice, a reshape, the result of a ufunc, a copy that keeps the
  subclass) by allocating the new array object, of the class of the template or of the
  class asked for, and calling \<^verbatim>\<open>__array_finalize__\<close> on it with the template as
  \<^verbatim>\<open>obj\<close>. Of the classes here only \<^verbatim>\<open>ArrayView\<close> overrides that method.\<close>

definition ndarray_derive :: "state \<Rightarrow> addr \<Rightarrow> pyclass \<Rightarrow> addr \<Rightarrow> state \<times> addr" where
  "ndarray_derive s template c b =
     (case alloc s (Obj \<lparr>cls = c, view_args = NoAttr, buf = b\<rparr>) of
        (s1, a) \<Rightarrow> ((if c = ArrayView then array_finalize s1 a (Some template) else s1), a))"


text \<open>The descriptor that a constructor stores: \<^verbatim>\<open>ElementRef(*view_args)\<close>, or \<^verbatim>\<open>None\<close>
  when \<^verbatim>\<open>view_args\<close> is \<^verbatim>\<open>None\<close>.\<close>

fun descriptor :: "elementref option \<Rightarrow> view_attr" where
  "descriptor None = AttrNone"
| "descriptor (Some er) = AttrRef er"

text \<open>\<^verbatim>\<open>ArrayView.__new__(cls, input_array, view_args)\<close>:
  \<^verbatim>\<open>np.asanyarray(input_array).view(cls)\<close> is a new array object of class \<^verbatim>\<open>ArrayView\<close>
  over the buffer of the input array, finalized from the input array; then its
  \<^verbatim>\<open>_view_args\<close> is assigned.\<close>

definition ArrayView_new :: "state \<Rightarrow> addr \<Rightarrow> elementref option \<Rightarrow> state \<times> (pyerr + addr)" where
  "ArrayView_new s input_array va =
     (case cell_at s input_array of
        Some (Obj oi) \<Rightarrow>
          (case ndarray_derive s input_array ArrayView (buf oi) of
             (s1, arr) \<Rightarrow>
               (s1\<lparr>heap := (heap s1)[arr :=
                     Obj \<lparr>cls = ArrayView, view_args = descriptor va, buf = buf oi\<rparr>]\<rparr>,
                Inr arr))
      | _ \<Rightarrow> (s, Inl TypeError))"

text \<open>The constructor of a class built on \<^verbatim>\<open>_ViewMixin\<close>: \<^verbatim>\<open>_ViewMixin.__init__\<close> stores
  the descriptor and calls the constructor of the native base class on the source
  container. \<^verbatim>\<open>dict(d)\<close> is a new dict with the entries of \<open>d\<close>; the table and sparse
  constructors share the data of their source.\<close>

definition ViewMixin_new :: "state \<Rightarrow> pyclass \<Rightarrow> addr \<Rightarrow> elementref option \<Rightarrow> state \<times> (pyerr + addr)" where
  "ViewMixin_new s c src va =
     (case cell_at s src of
        Some (Obj os) \<Rightarrow>
          (case cell_at s (buf os) of
             Some (Buf d) \<Rightarrow>
               (if c = DictView
                then (case new_object s c (descriptor va) d of (s1, a) \<Rightarrow> (s1, Inr a))
                else (case alloc s (Obj \<lparr>cls = c, view_args = descriptor va, buf = buf os\<rparr>) of
                        (s1, a) \<Rightarrow> (s1, Inr a)))
           | _ \<Rightarrow> (s, Inl TypeError))
      | _ \<Rightarrow> (s, Inl TypeError))"

subsection \<open>The construction registry\<close>

text \<open>The functions registered with \<^verbatim>\<open>as_view\<close>, and the default.\<close>

datatype impl =
    as_view_default | as_view_array | as_view_df | as_view_csr | as_view_csc
  | as_view_dict | as_view_zappy

text \<open>Single dispatch on the class of the object: the function registered for the class or
  for the native container class among its bases, and the default for a class that has
  none.\<close>

fun dispatch :: "pyclass \<Rightarrow> impl" where
  "dispatch NdArray = as_view_array"
| "dispatch ArrayView = as_view_array"
| "dispatch DataFrame = as_view_df"
| "dispatch DataFrameView = as_view_df"
| "dispatch CsrMatrix = as_view_csr"
| "dispatch SparseCSRView = as_view_csr"
| "dispatch CscMatrix = as_view_csc"
| "dispatch SparseCSCView = as_view_csc"
| "dispatch PyDict = as_view_dict"
| "dispatch DictView = as_view_dict"
| "dispatch ZappyArray = as_view_zappy"
| "dispatch (OtherClass n) = as_view_default"

fun class_name :: "pyclass \<Rightarrow> string" where
  "class_name NdArray = ''numpy.ndarray''"
| "class_name DataFrame = ''pandas.core.frame.DataFrame''"
| "class_name CsrMatrix = ''scipy.sparse.csr_matrix''"
| "class_name CscMatrix = ''scipy.sparse.csc_matrix''"
| "class_name PyDict = ''dict''"
| "class_name ZappyArray = ''ZappyArray''"
| "class_name ArrayView = ''anndata._core.views.ArrayView''"
| "class_name DataFrameView = ''anndata._core.views.DataFrameView''"
| "class_name SparseCSRView = ''anndata._core.views.SparseCSRView''"
| "class_name SparseCSCView = ''anndata._core.views.SparseCSCView''"
| "class_name DictView = ''anndata._core.views.DictView''"
| "class_name (OtherClass n) = n"

text \<open>The message of the default: \<^verbatim>\<open>f"No view type has been registered for {type(obj)}"\<close>,
  where a class is printed as \<^verbatim>\<open><class 'name'>\<close>.\<close>

definition not_registered :: "pyclass \<Rightarrow> string" where
  "not_registered c =
     ''No view type has been registered for <class '' @ [CHR 0x27] @ class_name c @ [CHR 0x27] @ ''>''"

text \<open>\<^verbatim>\<open>as_view(obj, view_args)\<close>.\<close>

definition as_view :: "state \<Rightarrow> addr \<Rightarrow> elementref option \<Rightarrow> state \<times> (pyerr + addr)" where
  "as_view s obj va =
     (case cell_at s obj of
        Some (Obj ob) \<Rightarrow>
          (case dispatch (cls ob) of
             as_view_default \<Rightarrow> (s, Inl (NotImplementedError (not_registered (cls ob))))
           | as_view_array \<Rightarrow> ArrayView_new s obj va
           | as_view_df \<Rightarrow> ViewMixin_new s DataFrameView obj va
           | as_view_csr \<Rightarrow> ViewMixin_new s SparseCSRView obj va
           | as_view_csc \<Rightarrow> ViewMixin_new s SparseCSCView obj va
           | as_view_dict \<Rightarrow> ViewMixin_new s DictView obj va
           | as_view_zappy \<Rightarrow> (s, Inr obj))
      | _ \<Rightarrow> (s, Inl TypeError))"

subsection \<open>Copies of views\<close>

text \<open>A new plain container of class \<open>c\<close> over a copy of the data of an object.\<close>

definition native_copy :: "state \<Rightarrow> addr \<Rightarrow> pyclass \<Rightarrow> state \<times> (pyerr + addr)" where
  "native_copy s a c =
     (case obj_content s a of
        Some d \<Rightarrow> (case new_object s c NoAttr d of (s1, a') \<Rightarrow> (s1, Inr a'))
      | None \<Rightarrow> (s, Inl TypeError))"

text \<open>The method \<^verbatim>\<open>copy\<close> of each class. \<^verbatim>\<open>ArrayView.copy\<close> is \<^verbatim>\<open>np.array(self)\<close>. The
  sparse views build a plain matrix over their own data
  (\<^verbatim>\<open>sparse.csr_matrix(self)\<close>) and copy that. \<^verbatim>\<open>DictView\<close> and \<^verbatim>\<open>DataFrameView\<close>
  define no \<^verbatim>\<open>copy\<close> and inherit \<^verbatim>\<open>dict.copy\<close>, which returns a \<^verbatim>\<open>dict\<close>, and
  \<^verbatim>\<open>DataFrame.copy\<close>, which builds its result with the constructor of \<^verbatim>\<open>DataFrame\<close>. A
  native container copies into its own class.\<close>

definition view_copy :: "state \<Rightarrow> addr \<Rightarrow> state \<times> (pyerr + addr)" where
  "view_copy s self =
     (case cell_at s self of
        Some (Obj ob) \<Rightarrow>
          (case cls ob of
             ArrayView \<Rightarrow> native_copy s self NdArray
           | SparseCSRView \<Rightarrow>
               (case alloc s (Obj \<lparr>cls = CsrMatrix, view_args = NoAttr, buf = buf ob\<rparr>) of
                  (s1, m) \<Rightarrow> native_copy s1 m CsrMatrix)
           | SparseCSCView \<Rightarrow>
               (case alloc s (Obj \<lparr>cls = CscMatrix, view_args = NoAttr, buf = buf ob\<rparr>) of
                  (s1, m) \<Rightarrow> native_copy s1 m CscMatrix)
           | DictView \<Rightarrow> native_copy s self PyDict
           | DataFrameView \<Rightarrow> native_copy s self DataFrame
           | c \<Rightarrow> native_copy s self c)
      | _ \<Rightarrow> (s, Inl TypeError))"

text \<open>\<^verbatim>\<open>pd.DataFrame.drop(labels)\<close> with \<^verbatim>\<open>inplace=False\<close> on a plain table: a new table
  without the labels.\<close>

definition DataFrame_drop :: "state \<Rightarrow> addr \<Rightarrow> key list \<Rightarrow> state \<times> (pyerr + addr)" where
  "DataFrame_drop s df ls =
     (case cell_at s df of
        Some (Obj ob) \<Rightarrow>
          (case cell_at s (buf ob) of
             Some (Buf d) \<Rightarrow>
               (case content_drop d ls of
                  Inl e \<Rightarrow> (s, Inl e)
                | Inr d' \<Rightarrow> (case new_object s (cls ob) NoAttr d' of (s1, a) \<Rightarrow> (s1, Inr a)))
           | _ \<Rightarrow> (s, Inl TypeError))
      | _ \<Rightarrow> (s, Inl TypeError))"

text \<open>\<^verbatim>\<open>DataFrameView.drop(self, labels, inplace)\<close>. Without \<^verbatim>\<open>inplace\<close> it returns
  \<^verbatim>\<open>self.copy().drop(labels)\<close>, where \<^verbatim>\<open>self.copy()\<close> is the inherited
  \<^verbatim>\<open>DataFrame.copy\<close>; with \<^verbatim>\<open>inplace\<close> it drops in place on the container that
  \<^verbatim>\<open>_update\<close> yields and returns \<^verbatim>\<open>None\<close>.\<close>

definition DataFrameView_drop ::
  "state \<Rightarrow> addr \<Rightarrow> key list \<Rightarrow> bool \<Rightarrow> state \<times> (pyerr + addr option)" where
  "DataFrameView_drop s self ls inplace =
     (if \<not> inplace then
        (case native_copy s self DataFrame of
           (s1, Inl e) \<Rightarrow> (s1, Inl e)
         | (s1, Inr c) \<Rightarrow>
             (case DataFrame_drop s1 c ls of
                (s2, Inl e) \<Rightarrow> (s2, Inl e)
              | (s2, Inr a) \<Rightarrow> (s2, Inr (Some a))))
      else
        (case cell_at s self of
           Some (Obj ob) \<Rightarrow>
             (case with_update s (view_args ob) (\<lambda>s' df. native_drop s' df ls) of
                (s1, Inl e) \<Rightarrow> (s1, Inl e)
              | (s1, Inr u) \<Rightarrow> (s1, Inr None))
         | _ \<Rightarrow> (s, Inl TypeError)))"

subsection \<open>Deep copies\<close>

text \<open>The classes built on \<^verbatim>\<open>_ViewMixin\<close>, which defines \<^verbatim>\<open>__deepcopy__\<close>. \<^verbatim>\<open>ArrayView\<close>
  is built on \<^verbatim>\<open>_SetItemMixin\<close> and \<^verbatim>\<open>np.ndarray\<close> only.\<close>

fun has_ViewMixin :: "pyclass \<Rightarrow> bool" where
  "has_ViewMixin DataFrameView = True"
| "has_ViewMixin SparseCSRView = True"
| "has_ViewMixin SparseCSCView = True"
| "has_ViewMixin DictView = True"
| "has_ViewMixin c = False"

text \<open>\<^verbatim>\<open>copy.deepcopy(obj)\<close>, with the depth of recursion that Python allows as the first
  argument. For a class built on \<^verbatim>\<open>_ViewMixin\<close> it is \<^verbatim>\<open>_ViewMixin.__deepcopy__\<close>: the
  descriptor is unpacked (which fails when it is absent or \<^verbatim>\<open>None\<close>) and the result is
  \<^verbatim>\<open>deepcopy(getattr(parent._adata_ref, attrname))\<close>. Any other container is copied
  natively, into a new object of its class over a copy of its data; for an array numpy
  keeps the subclass and finalizes the copy from the original.\<close>

fun py_deepcopy :: "nat \<Rightarrow> state \<Rightarrow> addr \<Rightarrow> state \<times> (pyerr + addr)" where
  "py_deepcopy 0 s a = (s, Inl RecursionError)"
| "py_deepcopy (Suc n) s a =
     (case cell_at s a of
        Some (Obj ob) \<Rightarrow>
          (if has_ViewMixin (cls ob) then
             (case view_args ob of
                NoAttr \<Rightarrow> (s, Inl (AttributeError ''_view_args''))
              | AttrNone \<Rightarrow> (s, Inl TypeError)
              | AttrRef er \<Rightarrow>
                  (case cell_at s (parent er) of
                     Some (Root ad) \<Rightarrow>
                       (case adata_ref ad of
                          None \<Rightarrow> (s, Inl (AttributeError (attrname er)))
                        | Some r \<Rightarrow>
                            (case py_getattr s r (attrname er) of
                               Inl e \<Rightarrow> (s, Inl e)
                             | Inr t \<Rightarrow> py_deepcopy n s t))
                   | _ \<Rightarrow> (s, Inl (AttributeError ''_adata_ref''))))
           else
             (case cell_at s (buf ob) of
                Some (Buf d) \<Rightarrow>
                  (case new_object s (cls ob)
                          (if cls ob = ArrayView then getattr_view_args (view_args ob)
                           else view_args ob) d of
                     (s1, a') \<Rightarrow> (s1, Inr a'))
              | _ \<Rightarrow> (s, Inl TypeError)))
      | _ \<Rightarrow> (s, Inl TypeError))"

text \<open>\<^verbatim>\<open>copy.deepcopy(obj)\<close> under Python's default recursion limit.\<close>

definition deepcopy :: "state \<Rightarrow> addr \<Rightarrow> state \<times> (pyerr + addr)" where
  "deepcopy s a = py_deepcopy 1000 s a"

subsection \<open>Notions used in the statements\<close>

text \<open>A later state extends an earlier one when every cell of the earlier store is still
  there, unchanged.\<close>

definition extends :: "state \<Rightarrow> state \<Rightarrow> bool" where
  "extends s s' = (length (heap s) \<le> length (heap s') \<and>
                   (\<forall>a < length (heap s). heap s' ! a = heap s ! a))"

text \<open>Every attribute in a list is a plain container without descriptor, allocated at or
  after address \<open>n\<close> over a buffer allocated at or after \<open>n\<close>.\<close>

definition fresh_attrs :: "nat \<Rightarrow> state \<Rightarrow> (string \<times> addr) list \<Rightarrow> bool" where
  "fresh_attrs n s as =
     (\<forall>(name, a) \<in> set as. n \<le> a \<and> a < length (heap s) \<and>
        (\<exists>ob d. heap s ! a = Obj ob \<and> view_args ob = NoAttr \<and> n \<le> buf ob \<and>
                 buf ob < length (heap s) \<and> heap s ! buf ob = Buf d))"

text \<open>A small store: the root at address 0 is a view of the root at address 3; its
  attribute \<open>X\<close> is the dense-array view at address 1, with the descriptor \<open>(0, X, [])\<close>
  and the buffer at address 2.\<close>

definition ex_ref :: elementref where
  "ex_ref = \<lparr>parent = 0, attrname = ''X'', keys = []\<rparr>"

definition ex_view :: pyobj where
  "ex_view = \<lparr>cls = ArrayView, view_args = AttrRef ex_ref, buf = 2\<rparr>"

definition ex_state :: state where
  "ex_state =
     \<lparr>heap = [Root \<lparr>attrs = [(''X'', 1)], adata_ref = Some 3\<rparr>,
              Obj ex_view,
              Buf (Dense [1, 2, 3]),
              Root \<lparr>attrs = [(''X'', 4)], adata_ref = None\<rparr>,
              Obj \<lparr>cls = NdArray, view_args = NoAttr, buf = 5\<rparr>,
              Buf (Dense [0, 1, 2, 3, 4])],
      trace = []\<rparr>"

text \<open>A store with an object of a class for which no view type is registered.\<close>

definition ex_other :: state where
  "ex_other =
     \<lparr>heap = [Obj \<lparr>cls = OtherClass ''list'', view_args = NoAttr, buf = 1\<rparr>,
              Buf (Dense [1, 2])],
      trace = []\<rparr>"

section \<open>Verified properties\<close>

subsection \<open>Ranges and slices\<close>

lemma le_div_pos:
  assumes "0 < (s::int)"
  shows "(k \<le> x div s) = (k * s \<le> x)"
proof -
  define q where "q = x div s"
  define m where "m = x mod s"
  have x: "x = q * s + m" by (simp add: q_def m_def)
  have m: "0 \<le> m" "m < s" using assms by (simp_all add: m_def)
  have "k \<le> q \<Longrightarrow> k * s \<le> x"
  proof -
    assume "k \<le> q"
    then have "k * s \<le> q * s" using assms by (simp add: mult_right_mono)
    with x m show "k * s \<le> x" by linarith
  qed
  moreover have "k * s \<le> x \<Longrightarrow> k \<le> q"
  proof -
    assume "k * s \<le> x"
    with x m have "k * s < q * s + s" by linarith
    then have "k * s < (q + 1) * s" by (simp add: distrib_right)
    then have "k < q + 1" using assms by (simp only: mult_less_cancel_right_pos)
    then show "k \<le> q" by simp
  qed
  ultimately show ?thesis unfolding q_def by blast
qed

lemma range_len_pos:
  assumes "0 < r_step r"
  shows "(k < range_len r) = (r_start r + int k * r_step r < r_stop r)"
proof (cases "r_start r < r_stop r")
  case True
  have "(k < range_len r) = (int k \<le> (r_stop r - r_start r - 1) div r_step r)"
    using True assms by (simp add: range_len_def) linarith
  also have "\<dots> = (int k * r_step r \<le> r_stop r - r_start r - 1)"
    using assms by (rule le_div_pos)
  finally show ?thesis by linarith
next
  case False
  have "0 \<le> int k * r_step r" using assms by simp
  with False have "\<not> r_start r + int k * r_step r < r_stop r" by linarith
  with False assms show ?thesis by (simp add: range_len_def)
qed

lemma range_len_neg:
  assumes "r_step r < 0"
  shows "(k < range_len r) = (r_stop r < r_start r + int k * r_step r)"
proof (cases "r_stop r < r_start r")
  case True
  have "(k < range_len r) = (int k \<le> (r_start r - r_stop r - 1) div (- r_step r))"
    using True assms by (simp add: range_len_def) linarith
  also have "\<dots> = (int k * (- r_step r) \<le> r_start r - r_stop r - 1)"
    using assms by (intro le_div_pos) simp
  finally show ?thesis by (simp add: algebra_simps) linarith
next
  case False
  have "int k * r_step r \<le> 0" using assms by (simp add: mult_nonneg_nonpos)
  with False have "\<not> r_stop r < r_start r + int k * r_step r" by linarith
  with False assms show ?thesis by (simp add: range_len_def)
qed

lemma slice_indices_step:
  "slice_indices sl n = Inr (s, e, st) \<Longrightarrow> st \<noteq> 0"
  by (auto simp: slice_indices_def Let_def split: if_splits)

lemma slice_indices_bounds_pos:
  "slice_indices sl n = Inr (s, e, st) \<Longrightarrow> 0 < st \<Longrightarrow> 0 \<le> s \<and> e \<le> int n"
  by (auto simp: slice_indices_def Let_def split: if_splits option.splits)

lemma slice_indices_bounds_neg:
  "slice_indices sl n = Inr (s, e, st) \<Longrightarrow> st < 0 \<Longrightarrow> s < int n \<and> - 1 \<le> e"
  by (auto simp: slice_indices_def Let_def split: if_splits option.splits)

lemma range_of_slice_step:
  "range_of_slice sl n = Inr r \<Longrightarrow> r_step r \<noteq> 0"
  by (auto simp: range_of_slice_def split: sum.splits dest: slice_indices_step)

lemma range_of_slice_elem_bounds:
  assumes "range_of_slice sl n = Inr r" and "k < range_len r"
  shows "0 \<le> r_start r + int k * r_step r \<and> r_start r + int k * r_step r < int n"
proof -
  obtain s e st where si: "slice_indices sl n = Inr (s, e, st)" and r: "r = PyRange s e st"
    using assms(1) by (auto simp: range_of_slice_def split: sum.splits)
  have st: "st \<noteq> 0" using si by (rule slice_indices_step)
  show ?thesis
  proof (cases "0 < st")
    case True
    then have b: "0 \<le> s" "e \<le> int n" using slice_indices_bounds_pos[OF si] by simp_all
    have "s + int k * st < e" using assms(2) True r by (simp add: range_len_pos)
    moreover have "0 \<le> int k * st" using True by simp
    ultimately show ?thesis using b r by simp
  next
    case False
    then have neg: "st < 0" using st by simp
    then have b: "s < int n" "- 1 \<le> e" using slice_indices_bounds_neg[OF si] by simp_all
    have "e < s + int k * st" using assms(2) neg r by (simp add: range_len_neg)
    moreover have "int k * st \<le> 0" using neg by (simp add: mult_nonneg_nonpos)
    ultimately show ?thesis using b r by simp
  qed
qed

lemma range_elems_nth:
  "k < range_len r \<Longrightarrow> range_elems r ! k = r_start r + int k * r_step r"
  by (simp add: range_elems_def)

lemma length_range_elems [simp]: "length (range_elems r) = range_len r"
  by (simp add: range_elems_def)

lemma range_getitem_slice_elems:
  assumes g: "range_getitem_slice r0 new = Inr r" and t1: "r_step r0 \<noteq> 0"
  shows "\<exists>r2. range_of_slice new (range_len r0) = Inr r2 \<and>
           range_elems r = map (\<lambda>j. r_start r0 + j * r_step r0) (range_elems r2)"
proof -
  obtain s2 e2 t2 where si: "slice_indices new (range_len r0) = Inr (s2, e2, t2)"
    and r: "r = PyRange (r_start r0 + s2 * r_step r0) (r_start r0 + e2 * r_step r0) (r_step r0 * t2)"
    using g by (auto simp: range_getitem_slice_def split: sum.splits)
  define r2 where "r2 = PyRange s2 e2 t2"
  define a where "a = r_start r0"
  define t1 where "t1 = r_step r0"
  have t2: "t2 \<noteq> 0" using si by (rule slice_indices_step)
  have t1nz: "t1 \<noteq> 0" using t1 by (simp add: t1_def)
  have r2: "range_of_slice new (range_len r0) = Inr r2"
    using si by (simp add: range_of_slice_def r2_def)
  have r': "r_start r = a + s2 * t1" "r_stop r = a + e2 * t1" "r_step r = t1 * t2"
    by (simp_all add: r a_def t1_def)
  have len: "(k < range_len r) = (k < range_len r2)" for k
  proof -
    have e1: "a + s2 * t1 + int k * (t1 * t2) = a + t1 * (s2 + int k * t2)"
      by (simp add: algebra_simps)
    have e2: "a + e2 * t1 = a + t1 * e2" by simp
    consider (pp) "0 < t1" "0 < t2" | (pn) "0 < t1" "t2 < 0" | (np) "t1 < 0" "0 < t2" | (nn) "t1 < 0" "t2 < 0"
      using t1nz t2 by linarith
    then show ?thesis
    proof cases
      case pp
      then have "0 < r_step r" by (simp add: r')
      then have "(k < range_len r) = (a + t1 * (s2 + int k * t2) < a + t1 * e2)"
        by (simp only: range_len_pos r' e1 e2)
      also have "\<dots> = (s2 + int k * t2 < e2)" using pp by (simp add: mult_less_cancel_left_pos)
      also have "\<dots> = (k < range_len r2)" using pp by (simp add: range_len_pos r2_def)
      finally show ?thesis .
    next
      case pn
      then have "r_step r < 0" by (simp add: r' mult_pos_neg)
      then have "(k < range_len r) = (a + t1 * e2 < a + t1 * (s2 + int k * t2))"
        by (simp only: range_len_neg r' e1 e2)
      also have "\<dots> = (e2 < s2 + int k * t2)" using pn by (simp add: mult_less_cancel_left_pos)
      also have "\<dots> = (k < range_len r2)" using pn by (simp add: range_len_neg r2_def)
      finally show ?thesis .
    next
      case np
      then have "r_step r < 0" by (simp add: r' mult_neg_pos)
      then have "(k < range_len r) = (a + t1 * e2 < a + t1 * (s2 + int k * t2))"
        by (simp only: range_len_neg r' e1 e2)
      also have "\<dots> = (s2 + int k * t2 < e2)" using np by (simp add: mult_less_cancel_left_neg)
      also have "\<dots> = (k < range_len r2)" using np by (simp add: range_len_pos r2_def)
      finally show ?thesis .
    next
      case nn
      then have "0 < r_step r" by (simp add: r' mult_neg_neg)
      then have "(k < range_len r) = (a + t1 * (s2 + int k * t2) < a + t1 * e2)"
        by (simp only: range_len_pos r' e1 e2)
      also have "\<dots> = (e2 < s2 + int k * t2)" using nn by (simp add: mult_less_cancel_left_neg)
      also have "\<dots> = (k < range_len r2)" using nn by (simp add: range_len_neg r2_def)
      finally show ?thesis .
    qed
  qed
  have leneq: "range_len r = range_len r2"
  proof (rule ccontr)
    assume "range_len r \<noteq> range_len r2"
    then consider "range_len r < range_len r2" | "range_len r2 < range_len r" by linarith
    then show False using len[of "range_len r"] len[of "range_len r2"] by cases simp_all
  qed
  have "range_elems r = map (\<lambda>j. a + j * t1) (range_elems r2)"
    by (simp add: range_elems_def leneq r' r2_def algebra_simps)
  with r2 show ?thesis by (auto simp: a_def t1_def)
qed

lemma nat_eq_by_less:
  assumes "\<And>k::nat. (k < m) = (k < n)"
  shows "m = n"
proof (rule ccontr)
  assume "m \<noteq> n"
  then consider "m < n" | "n < m" by linarith
  then show False using assms[of m] assms[of n] by cases simp_all
qed

lemma range_elems_eqI:
  assumes "r_start r' = r_start r" and "r_step r' = r_step r"
    and "\<And>k. (k < range_len r') = (k < range_len r)"
  shows "range_elems r' = range_elems r"
proof -
  have "range_len r' = range_len r" using assms(3) by (rule nat_eq_by_less)
  then show ?thesis using assms(1,2) by (simp add: range_elems_def)
qed

lemma slice_of_range_correct:
  assumes step: "r_step r \<noteq> 0"
    and inb: "\<And>k. k < range_len r \<Longrightarrow>
                0 \<le> r_start r + int k * r_step r \<and> r_start r + int k * r_step r < int L"
  shows "\<exists>r'. range_of_slice (slice_of_range r) L = Inr r' \<and> range_elems r' = range_elems r"
proof (cases "range_len r = 0")
  case True
  then obtain x where "range_of_slice (slice_of_range r) L = Inr (PyRange x x (r_step r))"
    using step by (auto simp: range_of_slice_def slice_of_range_def slice_indices_def Let_def)
  moreover have "range_elems (PyRange x x (r_step r)) = range_elems r"
    using True by (simp add: range_elems_def range_len_def)
  ultimately show ?thesis by blast
next
  case False
  define a where "a = r_start r"
  define b where "b = r_stop r"
  define t where "t = r_step r"
  have ne: "0 < range_len r" using False by simp
  have a: "0 \<le> a" "a < int L" using inb[OF ne] by (simp_all add: a_def)
  show ?thesis
  proof (cases "0 < t")
    case True
    have ab: "a < b" using ne True range_len_pos[of r 0] by (simp add: a_def b_def t_def)
    have ros: "range_of_slice (slice_of_range r) L = Inr (PyRange a (min b (int L)) t)"
      using False True a ab
      by (simp add: range_of_slice_def slice_of_range_def slice_indices_def Let_def a_def b_def t_def)
    have "range_elems (PyRange a (min b (int L)) t) = range_elems r"
    proof (rule range_elems_eqI)
      fix k
      have "(k < range_len (PyRange a (min b (int L)) t)) = (a + int k * t < min b (int L))"
        using True by (simp add: range_len_pos)
      also have "\<dots> = (a + int k * t < b)"
      proof
        assume "a + int k * t < min b (int L)" then show "a + int k * t < b" by simp
      next
        assume h: "a + int k * t < b"
        then have "k < range_len r" using True by (simp add: range_len_pos a_def b_def t_def)
        from inb[OF this] h show "a + int k * t < min b (int L)" by (simp add: a_def t_def)
      qed
      also have "\<dots> = (k < range_len r)" using True by (simp add: range_len_pos a_def b_def t_def)
      finally show "(k < range_len (PyRange a (min b (int L)) t)) = (k < range_len r)" .
    qed (simp_all add: a_def t_def)
    with ros show ?thesis by blast
  next
    case F: False
    then have neg: "t < 0" using step by (simp add: t_def)
    have ba: "b < a" using ne neg range_len_neg[of r 0] by (simp add: a_def b_def t_def)
    show ?thesis
    proof (cases "b < 0")
      case True
      have ros: "range_of_slice (slice_of_range r) L = Inr (PyRange a (- 1) t)"
        using False True neg a
        by (simp add: range_of_slice_def slice_of_range_def slice_indices_def Let_def a_def b_def t_def)
      have "range_elems (PyRange a (- 1) t) = range_elems r"
      proof (rule range_elems_eqI)
        fix k
        have "(k < range_len (PyRange a (- 1) t)) = (- 1 < a + int k * t)"
          using neg by (simp add: range_len_neg)
        also have "\<dots> = (b < a + int k * t)"
        proof
          assume "- 1 < a + int k * t" then show "b < a + int k * t" using True by simp
        next
          assume h: "b < a + int k * t"
          then have "k < range_len r" using neg by (simp add: range_len_neg a_def b_def t_def)
          from inb[OF this] show "- 1 < a + int k * t" by (simp add: a_def t_def)
        qed
        also have "\<dots> = (k < range_len r)" using neg by (simp add: range_len_neg a_def b_def t_def)
        finally show "(k < range_len (PyRange a (- 1) t)) = (k < range_len r)" .
      qed (simp_all add: a_def t_def)
      with ros show ?thesis by blast
    next
      case F2: False
      have ros: "range_of_slice (slice_of_range r) L = Inr (PyRange a b t)"
        using False F2 neg a ba
        by (simp add: range_of_slice_def slice_of_range_def slice_indices_def Let_def a_def b_def t_def)
      have "PyRange a b t = r" by (simp add: a_def b_def t_def)
      with ros show ?thesis by simp
    qed
  qed
qed

subsection \<open>Composition of indices\<close>







lemma composed_range_step:
  assumes "range_of_slice old l = Inr r0" and "range_getitem_slice r0 new = Inr r"
  shows "r_step r \<noteq> 0"
  using assms range_of_slice_step[OF assms(1)]
  by (auto simp: range_getitem_slice_def split: sum.splits dest: slice_indices_step)

lemma composed_range_bounds:
  assumes r0: "range_of_slice old l = Inr r0" and r: "range_getitem_slice r0 new = Inr r"
    and k: "k < range_len r"
  shows "0 \<le> r_start r + int k * r_step r \<and> r_start r + int k * r_step r < int l"
proof -
  have t0: "r_step r0 \<noteq> 0" using r0 by (rule range_of_slice_step)
  obtain r2 where r2: "range_of_slice new (range_len r0) = Inr r2"
    and re: "range_elems r = map (\<lambda>j. r_start r0 + j * r_step r0) (range_elems r2)"
    using range_getitem_slice_elems[OF r t0] by blast
  have lr: "range_len r = range_len r2" using re by (metis length_map length_range_elems)
  have k2: "k < range_len r2" using k lr by simp
  have j: "0 \<le> range_elems r2 ! k \<and> range_elems r2 ! k < int (range_len r0)"
    using range_of_slice_elem_bounds[OF r2 k2] k2 by (simp add: range_elems_nth)
  then have n: "nat (range_elems r2 ! k) < range_len r0" by linarith
  have "range_elems r ! k = r_start r0 + int (nat (range_elems r2 ! k)) * r_step r0"
    using k2 j by (simp add: re)
  with range_of_slice_elem_bounds[OF r0 n] k show ?thesis
    by (simp add: range_elems_nth)
qed










subsection \<open>The form of a composed slice\<close>

text \<open>Claim C5 as stated fails where the composed range is empty and its computed stop is
  negative: for \<open>old = slice(None, None, -1)\<close>, \<open>new = slice(5, 5)\<close> and \<open>l = 5\<close> the range
  is \<open>range(-1, -1, -1)\<close>, whose stop is negative, and the composition returns a slice
  with \<open>stop = start = -1\<close>, not \<open>None\<close>: the emptiness test comes first in the source.\<close>

theorem resolve_idx_slice_stop_counterexample:
  "range_of_slice (PySlice None None (Some (- 1))) 5 = Inr (PyRange 4 (- 1) (- 1)) \<and>
   range_getitem_slice (PyRange 4 (- 1) (- 1)) (PySlice (Some 5) (Some 5) None)
     = Inr (PyRange (- 1) (- 1) (- 1)) \<and>
   r_stop (PyRange (- 1) (- 1) (- 1)) < 0 \<and>
   resolve_idx (Slice (PySlice None None (Some (- 1)))) (Slice (PySlice (Some 5) (Some 5) None)) 5
     = Inr (Slice (PySlice (Some (- 1)) (Some (- 1)) (Some (- 1)))) \<and>
   sl_stop (PySlice (Some (- 1)) (Some (- 1)) (Some (- 1))) \<noteq> None"
  by code_simp

lemma slice_indices_total:
  assumes "sl_step sl \<noteq> Some 0"
  shows "\<exists>s e st. slice_indices sl l = Inr (s, e, st)"
proof (cases "sl_step sl")
  case None
  then show ?thesis by (simp add: slice_indices_def Let_def)
next
  case (Some t)
  with assms have "t \<noteq> 0" by simp
  with Some show ?thesis by (simp add: slice_indices_def Let_def)
qed

text \<open>Claim C5, amended. When the old and the new index are both slices with a non-zero
  step, \<^verbatim>\<open>_resolve_idx\<close> over an axis of length \<open>l\<close> returns a slice, never an array: the
  old slice is resolved to the range \<open>r0\<close> of its normalised start, stop and step, the new
  slice is applied to that range, giving the range \<open>r\<close>, and the returned slice has the
  start and the step of \<open>r\<close>; its stop is the start when \<open>r\<close> is empty (also when the stop
  of \<open>r\<close> is negative), otherwise \<open>None\<close> when the stop of \<open>r\<close> is negative, otherwise the
  stop of \<open>r\<close>. The returned slice does not depend on the axis length: over every axis of
  length \<open>l\<close> or more it selects exactly the elements of \<open>r\<close>.\<close>

theorem resolve_idx_slice_slice_form:
  assumes "sl_step old \<noteq> Some 0" and "sl_step new \<noteq> Some 0"
  shows "\<exists>r0 r sl. range_of_slice old l = Inr r0 \<and> range_getitem_slice r0 new = Inr r \<and>
           resolve_idx (Slice old) (Slice new) l = Inr (Slice sl) \<and>
           sl_start sl = Some (r_start r) \<and>
           sl_step sl = Some (r_step r) \<and>
           sl_stop sl = (if range_len r = 0 then Some (r_start r)
                         else if r_stop r < 0 then None
                         else Some (r_stop r)) \<and>
           (\<forall>l'. l \<le> l' \<longrightarrow>
              (\<exists>r'. range_of_slice sl l' = Inr r' \<and> range_elems r' = range_elems r))"
proof -
  obtain s e st where si: "slice_indices old l = Inr (s, e, st)"
    using slice_indices_total[OF assms(1)] by blast
  define r0 where "r0 = PyRange s e st"
  have r0: "range_of_slice old l = Inr r0" using si by (simp add: range_of_slice_def r0_def)
  obtain s2 e2 t2 where si2: "slice_indices new (range_len r0) = Inr (s2, e2, t2)"
    using slice_indices_total[OF assms(2)] by blast
  then obtain r where r: "range_getitem_slice r0 new = Inr r"
    by (simp add: range_getitem_slice_def)
  have res: "resolve_idx (Slice old) (Slice new) l = Inr (Slice (slice_of_range r))"
    using r0 r by (simp add: resolve_idx_slice_def resolve_idx_slice_slice_def)
  have t: "r_step r \<noteq> 0" using r0 r by (rule composed_range_step)
  have ind: "\<exists>r'. range_of_slice (slice_of_range r) l' = Inr r' \<and> range_elems r' = range_elems r"
    if "l \<le> l'" for l'
  proof (rule slice_of_range_correct[OF t])
    fix k assume "k < range_len r"
    from composed_range_bounds[OF r0 r this] that
    show "0 \<le> r_start r + int k * r_step r \<and> r_start r + int k * r_step r < int l'"
      by simp
  qed
  have "sl_start (slice_of_range r) = Some (r_start r)"
    "sl_step (slice_of_range r) = Some (r_step r)"
    "sl_stop (slice_of_range r) = (if range_len r = 0 then Some (r_start r)
                         else if r_stop r < 0 then None
                         else Some (r_stop r))"
    by (simp_all add: slice_of_range_def)
  with r0 r res ind show ?thesis by blast
qed

text \<open>The theorem at \<open>slice(2, 8, 2)\<close> composed with the empty \<open>slice(5, 5)\<close> over an axis
  of length ten: the result is the slice \<open>slice(8, 8, 2)\<close>, with \<open>stop = start\<close>.\<close>

theorem resolve_idx_slice_slice_form_witness:
  "sl_step (PySlice (Some 2) (Some 8) (Some 2)) \<noteq> Some 0 \<and>
   sl_step (PySlice (Some 5) (Some 5) None) \<noteq> Some 0 \<and>
   (\<exists>sl. resolve_idx (Slice (PySlice (Some 2) (Some 8) (Some 2)))
            (Slice (PySlice (Some 5) (Some 5) None)) 10 = Inr (Slice sl) \<and>
         sl_start sl = Some 8 \<and> sl_stop sl = Some 8 \<and> sl_step sl = Some 2)"
proof -
  have h1: "sl_step (PySlice (Some 2) (Some 8) (Some 2)) \<noteq> Some 0" by simp
  have h2: "sl_step (PySlice (Some 5) (Some 5) None) \<noteq> Some 0" by simp
  have r0: "range_of_slice (PySlice (Some 2) (Some 8) (Some 2)) 10 = Inr (PyRange 2 8 2)"
    by code_simp
  have r: "range_getitem_slice (PyRange 2 8 2) (PySlice (Some 5) (Some 5) None) = Inr (PyRange 8 8 2)"
    by code_simp
  have len: "range_len (PyRange 8 8 2) = 0" by code_simp
  from resolve_idx_slice_slice_form[OF h1 h2, of 10] r0 r len h1 h2
  show ?thesis by auto
qed

section \<open>Verified properties of the views\<close>

subsection \<open>Allocation and copies\<close>

lemma extends_refl [simp]: "extends s s"
  by (simp add: extends_def)

lemma extends_trans: "extends s s1 \<Longrightarrow> extends s1 s2 \<Longrightarrow> extends s s2"
  by (auto simp: extends_def)

lemma extends_emit [simp]: "extends s (emit s' e) = extends s s'"
  by (simp add: extends_def emit_def)

lemma extends_emit_left [simp]: "extends (emit s e) s' = extends s s'"
  by (simp add: extends_def emit_def)

lemma heap_emit [simp]: "heap (emit s e) = heap s"
  by (simp add: emit_def)

lemma trace_emit [simp]: "trace (emit s e) = trace s @ [e]"
  by (simp add: emit_def)

lemma cell_at_emit [simp]: "cell_at (emit s e) a = cell_at s a"
  by (simp add: cell_at_def)

lemma alloc_props:
  assumes "alloc s c = (s', a)"
  shows "extends s s'" "trace s' = trace s" "a = length (heap s)"
    "length (heap s') = Suc (length (heap s))" "heap s' ! a = c"
  using assms by (auto simp: alloc_def extends_def nth_append)

lemma new_object_props:
  assumes "new_object s c va d = (s', a)"
  shows "extends s s'" "trace s' = trace s" "a = Suc (length (heap s))"
    "length (heap s') = Suc (Suc (length (heap s)))"
    "heap s' ! a = Obj \<lparr>cls = c, view_args = va, buf = length (heap s)\<rparr>"
    "heap s' ! length (heap s) = Buf d"
  using assms by (auto simp: new_object_def alloc_def extends_def nth_append)

lemma fresh_attrs_extends:
  "fresh_attrs n s as \<Longrightarrow> extends s s' \<Longrightarrow> fresh_attrs n s' as"
  unfolding fresh_attrs_def extends_def by (auto; fastforce)

lemma fresh_attrs_mono: "fresh_attrs n s as \<Longrightarrow> m \<le> n \<Longrightarrow> fresh_attrs m s as"
  unfolding fresh_attrs_def by fastforce

lemma copy_attrs_props:
  "copy_attrs s as = (s', r) \<Longrightarrow>
     extends s s' \<and> trace s' = trace s \<and>
     (\<forall>as'. r = Inr as' \<longrightarrow> fresh_attrs (length (heap s)) s' as' \<and> map fst as' = map fst as)"
proof (induction as arbitrary: s s' r)
  case Nil
  then show ?case by (auto simp: fresh_attrs_def)
next
  case (Cons na rest)
  obtain n a where na: "na = (n, a)" by (cases na)
  show ?case
  proof (cases "cell_at s a")
    case None
    with Cons.prems na show ?thesis by auto
  next
    case (Some c)
    show ?thesis
    proof (cases c)
      case (Buf x)
      with Cons.prems na Some show ?thesis by auto
    next
      case (Root x)
      with Cons.prems na Some show ?thesis by auto
    next
      case (Obj ob)
      show ?thesis
      proof (cases "cell_at s (buf ob)")
        case None
        with Cons.prems na Some Obj show ?thesis by auto
      next
        case Sb: (Some cb)
        show ?thesis
        proof (cases cb)
          case (Obj x)
          with Cons.prems na Some \<open>c = Obj ob\<close> Sb show ?thesis by auto
        next
          case (Root x)
          with Cons.prems na Some \<open>c = Obj ob\<close> Sb show ?thesis by auto
        next
          case (Buf d)
          obtain s1 a' where no: "new_object s (native_class (cls ob)) NoAttr d = (s1, a')"
            by (cases "new_object s (native_class (cls ob)) NoAttr d")
          obtain s2 r2 where ca: "copy_attrs s1 rest = (s2, r2)"
            by (cases "copy_attrs s1 rest")
          note np = new_object_props[OF no]
          from Cons.IH[OF ca] have ih: "extends s1 s2" "trace s2 = trace s1"
            "\<And>as'. r2 = Inr as' \<Longrightarrow> fresh_attrs (length (heap s1)) s2 as' \<and> map fst as' = map fst rest"
            by auto
          have s': "s' = s2" and r: "r = (case r2 of Inl e \<Rightarrow> Inl e | Inr as \<Rightarrow> Inr ((n, a') # as))"
            using Cons.prems na Some \<open>c = Obj ob\<close> Sb Buf no ca by (auto split: sum.splits)
          have e: "extends s s'" using np(1) ih(1) s' by (auto intro: extends_trans)
          have t: "trace s' = trace s" using np(2) ih(2) s' by simp
          have f: "fresh_attrs (length (heap s)) s' as' \<and> map fst as' = map fst (na # rest)"
            if "r = Inr as'" for as'
          proof -
            from that r obtain as2 where r2: "r2 = Inr as2" and as': "as' = (n, a') # as2"
              by (auto split: sum.splits)
            from ih(3)[OF r2] have f2: "fresh_attrs (length (heap s1)) s2 as2"
              and m: "map fst as2 = map fst rest" by auto
            have f2': "fresh_attrs (length (heap s)) s2 as2"
              using f2 np(4) by (auto intro: fresh_attrs_mono)
            have fa: "fresh_attrs (length (heap s)) s1 [(n, a')]"
              using np by (auto simp: fresh_attrs_def)
            have "fresh_attrs (length (heap s)) s2 [(n, a')]"
              using fa ih(1) by (rule fresh_attrs_extends)
            with f2' m show ?thesis by (auto simp: fresh_attrs_def as' s' na)
          qed
          from e t f show ?thesis by blast
        qed
      qed
    qed
  qed
qed

lemma anndata_copy_ok:
  assumes "anndata_copy s r = (s', Inr new)"
  shows "extends s s'" "trace s' = trace s @ [Copied r new]"
    "length (heap s) \<le> new" "new < length (heap s')"
    "\<exists>ad. cell_at s r = Some (Root ad)"
    "\<exists>as. heap s' ! new = Root \<lparr>attrs = as, adata_ref = None\<rparr> \<and>
          fresh_attrs (length (heap s)) s' as"
proof -
  from assms obtain ad where ad: "cell_at s r = Some (Root ad)"
    by (auto simp: anndata_copy_def split: option.splits cell.splits)
  obtain s1 r1 where ca: "copy_attrs s (attrs ad) = (s1, r1)" by (cases "copy_attrs s (attrs ad)")
  from assms ad ca obtain as where r1: "r1 = Inr as"
    by (auto simp: anndata_copy_def split: sum.splits prod.splits)
  obtain s2 n2 where al: "alloc s1 (Root \<lparr>attrs = as, adata_ref = None\<rparr>) = (s2, n2)"
    by (cases "alloc s1 (Root \<lparr>attrs = as, adata_ref = None\<rparr>)")
  from assms ad ca r1 al have s': "s' = emit s2 (Copied r n2)" and new: "new = n2"
    by (auto simp: anndata_copy_def)
  note cp = copy_attrs_props[OF ca]
  note ap = alloc_props[OF al]
  from cp r1 have fa: "fresh_attrs (length (heap s)) s1 as" by blast
  have e1: "extends s s1" using cp by blast
  show "extends s s'" using e1 ap(1) s' by (auto intro: extends_trans)
  show "trace s' = trace s @ [Copied r new]" using cp ap(2) s' new by simp
  show "length (heap s) \<le> new" using e1 ap(3) new by (simp add: extends_def)
  show "new < length (heap s')" using ap s' new by simp
  show "\<exists>ad. cell_at s r = Some (Root ad)" using ad by blast
  have "fresh_attrs (length (heap s)) s2 as" using fa ap(1) by (rule fresh_attrs_extends)
  then have "fresh_attrs (length (heap s)) s' as" by (simp add: s' fresh_attrs_def)
  moreover have "heap s' ! new = Root \<lparr>attrs = as, adata_ref = None\<rparr>"
    using ap s' new by simp
  ultimately show "\<exists>as. heap s' ! new = Root \<lparr>attrs = as, adata_ref = None\<rparr> \<and>
          fresh_attrs (length (heap s)) s' as" by blast
qed

lemma anndata_copy_err:
  assumes "anndata_copy s r = (s', Inl e)"
  shows "extends s s'" "trace s' = trace s"
proof -
  show "extends s s'" "trace s' = trace s"
    using assms copy_attrs_props
    by (auto simp: anndata_copy_def alloc_def split: option.splits cell.splits sum.splits prod.splits)
qed

lemma fresh_attrs_lookup:
  assumes "fresh_attrs n s as" and "map_of as name = Some a"
  shows "n \<le> a \<and> a < length (heap s) \<and>
        (\<exists>ob d. heap s ! a = Obj ob \<and> view_args ob = NoAttr \<and> n \<le> buf ob \<and>
                 buf ob < length (heap s) \<and> heap s ! buf ob = Buf d)"
  using assms map_of_SomeD[OF assms(2)] unfolding fresh_attrs_def by fastforce

lemma update_enter_ok:
  assumes "update_enter s (AttrRef er) = (s1, Inr ((attr, path), new))"
  shows "extends s s1" "trace s1 = trace s @ [Copied (parent er) new]" "path = keys er"
    "length (heap s) \<le> new" "new < length (heap s1)"
    "\<exists>ad. cell_at s (parent er) = Some (Root ad)"
    "\<exists>as. heap s1 ! new = Root \<lparr>attrs = as, adata_ref = None\<rparr> \<and>
          map_of as (attrname er) = Some attr"
    "length (heap s) \<le> attr \<and> attr < length (heap s1) \<and>
        (\<exists>ob d. heap s1 ! attr = Obj ob \<and> view_args ob = NoAttr \<and> length (heap s) \<le> buf ob \<and>
                 buf ob < length (heap s1) \<and> heap s1 ! buf ob = Buf d \<and>
                 (\<exists>c. reduce_getitem d (keys er) = Inr c))"
proof -
  from assms have ac: "anndata_copy s (parent er) = (s1, Inr new)"
    by (auto simp: update_enter_def split: sum.splits prod.splits option.splits)
  note ok = anndata_copy_ok[OF ac]
  from ok(6) obtain as where as: "heap s1 ! new = Root \<lparr>attrs = as, adata_ref = None\<rparr>"
    and fa: "fresh_attrs (length (heap s)) s1 as" by blast
  have ca: "cell_at s1 new = Some (Root \<lparr>attrs = as, adata_ref = None\<rparr>)"
    using ok(4) as by (simp add: cell_at_def)
  from assms ac ca have ga: "map_of as (attrname er) = Some attr" and p: "path = keys er"
    by (auto simp: update_enter_def py_getattr_def split: sum.splits option.splits)
  from assms ac ca ga obtain d c where d: "obj_content s1 attr = Some d"
    and c: "reduce_getitem d (keys er) = Inr c"
    by (auto simp: update_enter_def py_getattr_def split: sum.splits option.splits)
  show "extends s s1" "trace s1 = trace s @ [Copied (parent er) new]"
    "length (heap s) \<le> new" "new < length (heap s1)"
    "\<exists>ad. cell_at s (parent er) = Some (Root ad)" using ok by auto
  show "path = keys er" by (rule p)
  show "\<exists>as. heap s1 ! new = Root \<lparr>attrs = as, adata_ref = None\<rparr> \<and>
          map_of as (attrname er) = Some attr" using as ga by blast
  from fresh_attrs_lookup[OF fa ga] d c
  show "length (heap s) \<le> attr \<and> attr < length (heap s1) \<and>
        (\<exists>ob d. heap s1 ! attr = Obj ob \<and> view_args ob = NoAttr \<and> length (heap s) \<le> buf ob \<and>
                 buf ob < length (heap s1) \<and> heap s1 ! buf ob = Buf d \<and>
                 (\<exists>c. reduce_getitem d (keys er) = Inr c))"
    by (auto simp: obj_content_def cell_at_def split: if_splits)
qed

lemma update_enter_err:
  assumes "update_enter s va = (s1, Inl e)"
  shows "extends s s1"
    "trace s1 = trace s \<or> (\<exists>er new. va = AttrRef er \<and> trace s1 = trace s @ [Copied (parent er) new])"
proof -
  show "extends s s1"
    using assms anndata_copy_err(1) anndata_copy_ok(1)
    by (auto simp: update_enter_def split: view_attr.splits sum.splits prod.splits option.splits)
  show "trace s1 = trace s \<or> (\<exists>er new. va = AttrRef er \<and> trace s1 = trace s @ [Copied (parent er) new])"
    using assms anndata_copy_err(2) anndata_copy_ok(2)
    by (auto simp: update_enter_def split: view_attr.splits sum.splits prod.splits option.splits)
qed

lemma init_as_actual_ok:
  assumes "init_as_actual s r new = (s', Inr u)"
  shows "\<exists>ad adn. cell_at s r = Some (Root ad) \<and> cell_at s new = Some (Root adn) \<and>
           heap s' = (heap s)[r := Root \<lparr>attrs = attrs adn, adata_ref = None\<rparr>] \<and>
           trace s' = trace s @ [InitAsActual r new]"
  using assms by (auto simp: init_as_actual_def split: option.splits cell.splits)

lemma init_as_actual_err:
  assumes "init_as_actual s r new = (s', Inl e)"
  shows "s' = s"
  using assms by (auto simp: init_as_actual_def split: option.splits cell.splits)

lemma native_setitem_ok:
  assumes "native_setitem s (a, path) idx v = (s', Inr u)"
  shows "\<exists>ob d d'. cell_at s a = Some (Obj ob) \<and> cell_at s (buf ob) = Some (Buf d) \<and>
           update_at d path (\<lambda>c. content_set c idx v) = Inr d' \<and>
           heap s' = (heap s)[buf ob := Buf d'] \<and>
           trace s' = trace s @ [Assigned (buf ob) path idx v]"
  using assms by (auto simp: native_setitem_def split: option.splits cell.splits sum.splits)

lemma native_setitem_err:
  assumes "native_setitem s loc idx v = (s', Inl e)"
  shows "s' = s"
  using assms by (auto simp: native_setitem_def split: option.splits cell.splits sum.splits)

lemma native_drop_ok:
  assumes "native_drop s (a, path) ls = (s', Inr u)"
  shows "\<exists>ob d d'. cell_at s a = Some (Obj ob) \<and> cell_at s (buf ob) = Some (Buf d) \<and>
           update_at d path (\<lambda>c. content_drop c ls) = Inr d' \<and>
           heap s' = (heap s)[buf ob := Buf d'] \<and>
           trace s' = trace s @ [Dropped (buf ob) path ls]"
  using assms by (auto simp: native_drop_def split: option.splits cell.splits sum.splits)

lemma native_drop_err:
  assumes "native_drop s loc ls = (s', Inl e)"
  shows "s' = s"
  using assms by (auto simp: native_drop_def split: option.splits cell.splits sum.splits)

subsection \<open>Scoped materialization\<close>




lemma with_update_ok:
  assumes body_ok: "\<And>s a path s' u. body s (a, path) = (s', Inr u) \<Longrightarrow>
      \<exists>ob d d'. cell_at s a = Some (Obj ob) \<and> cell_at s (buf ob) = Some (Buf d) \<and>
         update_at d path g = Inr d' \<and> heap s' = (heap s)[buf ob := Buf d'] \<and>
         trace s' = trace s @ [ev (buf ob) path]"
    and w: "with_update s (AttrRef er) body = (s', Inr u)"
  obtains s1 s2 attr new ob d d' as where
     "update_enter s (AttrRef er) = (s1, Inr ((attr, keys er), new))"
     "body s1 (attr, keys er) = (s2, Inr ())"
     "extends s s2" "length (heap s2) = length (heap s1)"
     "length (heap s) \<le> new" "new < length (heap s2)"
     "length (heap s) \<le> attr" "attr < length (heap s2)"
     "length (heap s) \<le> buf ob" "buf ob < length (heap s2)"
     "parent er < length (heap s)"
     "heap s2 ! new = Root \<lparr>attrs = as, adata_ref = None\<rparr>"
     "map_of as (attrname er) = Some attr"
     "heap s2 ! attr = Obj ob" "view_args ob = NoAttr"
     "heap s1 ! buf ob = Buf d" "update_at d (keys er) g = Inr d'"
     "heap s2 ! buf ob = Buf d'"
     "heap s' = (heap s2)[parent er := Root \<lparr>attrs = as, adata_ref = None\<rparr>]"
     "trace s' = trace s @ [Copied (parent er) new, ev (buf ob) (keys er),
                           InitAsActual (parent er) new]"
proof -
  from w obtain s1 attr path new where en: "update_enter s (AttrRef er) = (s1, Inr ((attr, path), new))"
    by (auto simp: with_update_def split: prod.splits sum.splits)
  note ue = update_enter_ok[OF en]
  from w en obtain s2 u2 where b: "body s1 (attr, path) = (s2, Inr u2)"
    and ex: "update_exit s2 (AttrRef er) new = (s', Inr u)"
    by (auto simp: with_update_def split: prod.splits sum.splits)
  from body_ok[OF b] obtain ob d d' where ob: "cell_at s1 attr = Some (Obj ob)"
    and d: "cell_at s1 (buf ob) = Some (Buf d)" and up: "update_at d path g = Inr d'"
    and h2: "heap s2 = (heap s1)[buf ob := Buf d']"
    and t2: "trace s2 = trace s1 @ [ev (buf ob) path]" by blast
  from ue(8) ob have fr: "length (heap s) \<le> attr" "attr < length (heap s1)"
    "heap s1 ! attr = Obj ob" "view_args ob = NoAttr" "length (heap s) \<le> buf ob"
    "buf ob < length (heap s1)"
    by (auto simp: cell_at_def split: if_splits)
  from ue(7) obtain as where as: "heap s1 ! new = Root \<lparr>attrs = as, adata_ref = None\<rparr>"
    and ga: "map_of as (attrname er) = Some attr" by blast
  from ue(6) have pr: "parent er < length (heap s)" by (auto simp: cell_at_def split: if_splits)
  have nb: "new \<noteq> buf ob" using as d by (auto simp: cell_at_def split: if_splits)
  have ab: "attr \<noteq> buf ob" using fr(3) d by (auto simp: cell_at_def split: if_splits)
  have e2: "extends s s2"
    using ue(1) h2 fr(5) by (auto simp: extends_def)
  have new2: "heap s2 ! new = Root \<lparr>attrs = as, adata_ref = None\<rparr>"
    using as nb h2 by simp
  have attr2: "heap s2 ! attr = Obj ob" using fr(3) ab h2 by simp
  have buf2: "heap s2 ! buf ob = Buf d'" using h2 fr(6) by simp
  have len2: "length (heap s2) = length (heap s1)" using h2 by simp
  from ex have ia: "init_as_actual s2 (parent er) new = (s', Inr u)"
    by (simp add: update_exit_def)
  from init_as_actual_ok[OF ia] obtain adn where "cell_at s2 new = Some (Root adn)"
    and h': "heap s' = (heap s2)[parent er := Root \<lparr>attrs = attrs adn, adata_ref = None\<rparr>]"
    and t': "trace s' = trace s2 @ [InitAsActual (parent er) new]" by blast
  with new2 have adn: "attrs adn = as" by (auto simp: cell_at_def split: if_splits)
  have b1: "heap s1 ! buf ob = Buf d" using d by (auto simp: cell_at_def split: if_splits)
  have en': "update_enter s (AttrRef er) = (s1, Inr ((attr, keys er), new))"
    using en ue(3) by simp
  have b': "body s1 (attr, keys er) = (s2, Inr ())" using b ue(3) by simp
  have up': "update_at d (keys er) g = Inr d'" using up ue(3) by simp
  have h'': "heap s' = (heap s2)[parent er := Root \<lparr>attrs = as, adata_ref = None\<rparr>]"
    using h' adn by simp
  have t'': "trace s' = trace s @ [Copied (parent er) new, ev (buf ob) (keys er),
                           InitAsActual (parent er) new]"
    using t' t2 ue(2,3) by simp
  have n2: "new < length (heap s2)" using ue(5) len2 by simp
  have a2: "attr < length (heap s2)" using fr(2) len2 by simp
  have bb2: "buf ob < length (heap s2)" using fr(6) len2 by simp
  show thesis
    by (rule that[OF en' b' e2 len2 ue(4) n2 fr(1) a2 fr(5) bb2 pr new2 ga attr2 fr(4) b1 up' buf2 h'' t''])
qed

lemma with_update_err:
  assumes body_ok: "\<And>s a path s' u. body s (a, path) = (s', Inr u) \<Longrightarrow>
      \<exists>ob d d'. cell_at s a = Some (Obj ob) \<and> cell_at s (buf ob) = Some (Buf d) \<and>
         update_at d path g = Inr d' \<and> heap s' = (heap s)[buf ob := Buf d'] \<and>
         trace s' = trace s @ [ev (buf ob) path]"
    and body_err: "\<And>s loc s' e. body s loc = (s', Inl e) \<Longrightarrow> s' = s"
    and w: "with_update s va body = (s', Inl e)"
  shows "extends s s' \<and>
     (trace s' = trace s \<or> (\<exists>er new. va = AttrRef er \<and> trace s' = trace s @ [Copied (parent er) new]))"
proof (cases "update_enter s va")
  case (Pair s1 r1)
  show ?thesis
  proof (cases r1)
    case (Inl e1)
    with Pair w have "s' = s1" by (simp add: with_update_def)
    with update_enter_err[of s va s1 e1] Pair Inl show ?thesis by simp
  next
    case (Inr cn)
    obtain attr path new where cn: "cn = ((attr, path), new)" by (cases cn) auto
    from Pair Inr cn obtain er where va: "va = AttrRef er"
      by (cases va) (auto simp: update_enter_def)
    have en: "update_enter s (AttrRef er) = (s1, Inr ((attr, path), new))"
      using Pair Inr cn va by simp
    note ue = update_enter_ok[OF en]
    obtain s2 r2 where b: "body s1 (attr, path) = (s2, r2)" by (cases "body s1 (attr, path)")
    show ?thesis
    proof (cases r2)
      case bl: (Inl e2)
      with b have "s2 = s1" by (auto dest: body_err)
      with w Pair Inr cn b bl have "s' = s1" by (simp add: with_update_def)
      with ue(1,2) va show ?thesis by auto
    next
      case br: (Inr u2)
      from body_ok[OF b[unfolded br]] obtain ob d d' where
        ob: "cell_at s1 attr = Some (Obj ob)" and d: "cell_at s1 (buf ob) = Some (Buf d)"
        and h2: "heap s2 = (heap s1)[buf ob := Buf d']" by blast
      from ue(7) obtain as where as: "heap s1 ! new = Root \<lparr>attrs = as, adata_ref = None\<rparr>"
        by blast
      from ue(6) obtain ad where ad: "cell_at s (parent er) = Some (Root ad)" by blast
      then have pr: "parent er < length (heap s)" "heap s ! parent er = Root ad"
        by (auto simp: cell_at_def split: if_splits)
      have "heap s1 ! parent er = Root ad" using ue(1) pr by (simp add: extends_def)
      moreover have "parent er < length (heap s1)" using ue(1) pr by (simp add: extends_def)
      moreover have "parent er \<noteq> buf ob" "new \<noteq> buf ob"
        using d calculation as by (auto simp: cell_at_def split: if_splits)
      ultimately have c1: "cell_at s2 (parent er) = Some (Root ad)"
        and c2: "cell_at s2 new = Some (Root \<lparr>attrs = as, adata_ref = None\<rparr>)"
        using h2 as ue(5) by (auto simp: cell_at_def)
      from w Pair Inr cn b br va have "init_as_actual s2 (parent er) new = (s', Inl e)"
        by (simp add: with_update_def update_exit_def)
      with c1 c2 show ?thesis by (simp add: init_as_actual_def)
    qed
  qed
qed

subsection \<open>Item assignment on views\<close>

lemma setitem_body_ok:
  "native_setitem s (a, path) idx v = (s', Inr u) \<Longrightarrow>
      \<exists>ob d d'. cell_at s a = Some (Obj ob) \<and> cell_at s (buf ob) = Some (Buf d) \<and>
         update_at d path (\<lambda>c. content_set c idx v) = Inr d' \<and>
         heap s' = (heap s)[buf ob := Buf d'] \<and>
         trace s' = trace s @ [(\<lambda>b p. Assigned b p idx v) (buf ob) path]"
  by (drule native_setitem_ok) simp

lemma setitem_view_unfold:
  assumes "cell_at s self = Some (Obj ob)" and "view_args ob = AttrRef er"
  shows "setitem s self idx value =
           with_update (emit s (Warned (warning_text (attrname er)))) (AttrRef er)
             (\<lambda>s' container. native_setitem s' container idx value)"
  using assms by (simp add: setitem_def)


text \<open>Claim C1. For a view with a descriptor for the root \<open>parent er\<close>, an item assignment
  changes no cell of the store that existed before the call until the root adopts the
  copy: after \<^verbatim>\<open>_update\<close> has yielded and the assignment has run, every old cell (the
  root, every other view, every buffer they share) is unchanged, and the yielded container
  and its buffer are new. After the call every old cell other than the root itself is
  unchanged. The copy is made before the assignment, and the assignment goes to a buffer
  that did not exist before the call; when the call raises, no assignment happened at
  all.\<close>

theorem setitem_isolation:
  assumes self: "cell_at s self = Some (Obj ob)" and v: "view_args ob = AttrRef er"
  shows "(\<forall>s1 c new s2 r.
            update_enter (emit s (Warned (warning_text (attrname er)))) (view_args ob)
              = (s1, Inr (c, new)) \<longrightarrow>
            native_setitem s1 c idx value = (s2, r) \<longrightarrow>
              (\<forall>a < length (heap s). heap s2 ! a = heap s ! a) \<and>
              length (heap s) \<le> new \<and> length (heap s) \<le> fst c \<and>
              (\<forall>ob'. cell_at s1 (fst c) = Some (Obj ob') \<longrightarrow> length (heap s) \<le> buf ob')) \<and>
         (\<forall>s' res. setitem s self idx value = (s', res) \<longrightarrow>
            (\<forall>a < length (heap s). a \<noteq> parent er \<longrightarrow> heap s' ! a = heap s ! a) \<and>
            (res = Inr () \<longrightarrow>
               (\<exists>new b. trace s' = trace s @
                    [Warned (warning_text (attrname er)), Copied (parent er) new,
                     Assigned b (keys er) idx value, InitAsActual (parent er) new] \<and>
                  length (heap s) \<le> new \<and> length (heap s) \<le> b)) \<and>
            (\<forall>e. res = Inl e \<longrightarrow>
               (\<forall>a < length (heap s). heap s' ! a = heap s ! a) \<and>
               (trace s' = trace s @ [Warned (warning_text (attrname er))] \<or>
                (\<exists>new. trace s' = trace s @
                    [Warned (warning_text (attrname er)), Copied (parent er) new]))))"
proof (intro conjI allI impI)
  let ?w = "Warned (warning_text (attrname er))"
  let ?s0 = "emit s ?w"
  fix s1 c new s2 r
  assume en: "update_enter ?s0 (view_args ob) = (s1, Inr (c, new))"
    and bd: "native_setitem s1 c idx value = (s2, r)"
  obtain attr path where c: "c = (attr, path)" by (cases c)
  note ue = update_enter_ok[OF en[unfolded v c]]
  from ue(8) obtain ob1 where ob1: "heap s1 ! attr = Obj ob1" "length (heap s) \<le> buf ob1"
    "attr < length (heap s1)" "length (heap s) \<le> attr" by auto
  have e1: "extends s s1" using ue(1) by simp
  show "length (heap s) \<le> new" using ue(4) by simp
  show "length (heap s) \<le> fst c" using ob1(4) c by simp
  show "\<And>ob'. cell_at s1 (fst c) = Some (Obj ob') \<Longrightarrow> length (heap s) \<le> buf ob'"
    using ob1 c by (auto simp: cell_at_def split: if_splits)
  show "\<And>a. a < length (heap s) \<Longrightarrow> heap s2 ! a = heap s ! a"
  proof -
    fix a assume a: "a < length (heap s)"
    show "heap s2 ! a = heap s ! a"
    proof (cases r)
      case (Inl e)
      with bd have "s2 = s1" by (auto dest: native_setitem_err)
      with e1 a show ?thesis by (simp add: extends_def)
    next
      case (Inr u)
      from native_setitem_ok[OF bd[unfolded Inr c]] obtain ob' d' where
        "cell_at s1 attr = Some (Obj ob')" "heap s2 = (heap s1)[buf ob' := Buf d']" by blast
      with ob1 have "heap s2 = (heap s1)[buf ob1 := Buf d']"
        by (auto simp: cell_at_def split: if_splits)
      with e1 a ob1(2) show ?thesis by (simp add: extends_def)
    qed
  qed
next
  let ?w = "Warned (warning_text (attrname er))"
  let ?s0 = "emit s ?w"
  let ?body = "\<lambda>s' container. native_setitem s' container idx value"
  fix s' res
  assume run: "setitem s self idx value = (s', res)"
  have w: "with_update ?s0 (AttrRef er) ?body = (s', res)"
    using setitem_view_unfold[OF self v] run by simp
  have both: "(\<forall>a < length (heap s). a \<noteq> parent er \<longrightarrow> heap s' ! a = heap s ! a) \<and>
            (res = Inr () \<longrightarrow>
               (\<exists>new b. trace s' = trace s @
                    [?w, Copied (parent er) new,
                     Assigned b (keys er) idx value, InitAsActual (parent er) new] \<and>
                  length (heap s) \<le> new \<and> length (heap s) \<le> b)) \<and>
            (\<forall>e. res = Inl e \<longrightarrow>
               (\<forall>a < length (heap s). heap s' ! a = heap s ! a) \<and>
               (trace s' = trace s @ [?w] \<or>
                (\<exists>new. trace s' = trace s @ [?w, Copied (parent er) new])))"
  proof (cases res)
    case (Inl e)
    from with_update_err[of ?body "\<lambda>c. content_set c idx value" "\<lambda>b p. Assigned b p idx value",
        OF setitem_body_ok native_setitem_err w[unfolded Inl]]
    have "extends ?s0 s'"
      "trace s' = trace ?s0 \<or> (\<exists>new. trace s' = trace ?s0 @ [Copied (parent er) new])"
      by auto
    then show ?thesis using Inl by (auto simp: extends_def)
  next
    case (Inr u)
    obtain s1 s2 attr new ob' d d' as where
      en: "update_enter ?s0 (AttrRef er) = (s1, Inr ((attr, keys er), new))"
      and bd: "native_setitem s1 (attr, keys er) idx value = (s2, Inr ())"
      and e2: "extends ?s0 s2" and l2: "length (heap s2) = length (heap s1)"
      and b: "length (heap ?s0) \<le> new" "new < length (heap s2)"
        "length (heap ?s0) \<le> attr" "attr < length (heap s2)"
        "length (heap ?s0) \<le> buf ob'" "buf ob' < length (heap s2)"
        "parent er < length (heap ?s0)"
      and nw: "heap s2 ! new = Root \<lparr>attrs = as, adata_ref = None\<rparr>"
      and ga: "map_of as (attrname er) = Some attr"
      and at: "heap s2 ! attr = Obj ob'" and na: "view_args ob' = NoAttr"
      and b1: "heap s1 ! buf ob' = Buf d"
      and up: "update_at d (keys er) (\<lambda>c. content_set c idx value) = Inr d'"
      and bf: "heap s2 ! buf ob' = Buf d'"
      and h': "heap s' = (heap s2)[parent er := Root \<lparr>attrs = as, adata_ref = None\<rparr>]"
      and t': "trace s' = trace ?s0 @ [Copied (parent er) new, Assigned (buf ob') (keys er) idx value,
                           InitAsActual (parent er) new]"
      by (rule with_update_ok[of ?body "\<lambda>c. content_set c idx value" "\<lambda>b p. Assigned b p idx value",
        OF setitem_body_ok w[unfolded Inr]])
    have "\<forall>a < length (heap s). a \<noteq> parent er \<longrightarrow> heap s' ! a = heap s ! a"
      using e2 h' by (auto simp: extends_def)
    moreover have "\<exists>new b. trace s' = trace s @
                    [?w, Copied (parent er) new,
                     Assigned b (keys er) idx value, InitAsActual (parent er) new] \<and>
                  length (heap s) \<le> new \<and> length (heap s) \<le> b"
      using t' b by auto
    ultimately show ?thesis using Inr by simp
  qed
  from both show "\<And>a. a < length (heap s) \<Longrightarrow> a \<noteq> parent er \<Longrightarrow> heap s' ! a = heap s ! a"
    by blast
  from both show "res = Inr () \<Longrightarrow> \<exists>new b. trace s' = trace s @
                    [?w, Copied (parent er) new,
                     Assigned b (keys er) idx value, InitAsActual (parent er) new] \<and>
                  length (heap s) \<le> new \<and> length (heap s) \<le> b"
    by blast
  from both show "\<And>e a. res = Inl e \<Longrightarrow> a < length (heap s) \<Longrightarrow> heap s' ! a = heap s ! a"
    by blast
  from both show "\<And>e. res = Inl e \<Longrightarrow> trace s' = trace s @ [?w] \<or>
                (\<exists>new. trace s' = trace s @ [?w, Copied (parent er) new])"
    by blast
qed


lemma ex_self: "cell_at ex_state 1 = Some (Obj ex_view)"
  by code_simp

lemma ex_view_args: "view_args ex_view = AttrRef ex_ref"
  by (simp add: ex_view_def)

lemma ex_setitem_ok:
  "setitem ex_state 1 (KInt 0) (Atom 9) =
     (\<lparr>heap = [Root \<lparr>attrs = [(''X'', 7)], adata_ref = None\<rparr>,
               Obj ex_view,
               Buf (Dense [1, 2, 3]),
               Root \<lparr>attrs = [(''X'', 4)], adata_ref = None\<rparr>,
               Obj \<lparr>cls = NdArray, view_args = NoAttr, buf = 5\<rparr>,
               Buf (Dense [0, 1, 2, 3, 4]),
               Buf (Dense [9, 2, 3]),
               Obj \<lparr>cls = NdArray, view_args = NoAttr, buf = 6\<rparr>,
               Root \<lparr>attrs = [(''X'', 7)], adata_ref = None\<rparr>],
       trace = [Warned (warning_text ''X''), Copied 0 8, Assigned 6 [] (KInt 0) (Atom 9),
                InitAsActual 0 8]\<rparr>, Inr ())"
  by code_simp



lemma ex_setitem_res: "snd (setitem ex_state 1 (KInt 0) (Atom 9)) = Inr ()"
  by (simp only: ex_setitem_ok snd_conv)

lemma ex_setitem_run:
  "setitem ex_state 1 (KInt 0) (Atom 9) = (fst (setitem ex_state 1 (KInt 0) (Atom 9)), Inr ())"
  by (simp only: ex_setitem_ok fst_conv)


theorem setitem_isolation_witness:
  "cell_at ex_state 1 = Some (Obj ex_view) \<and>
   view_args ex_view = AttrRef ex_ref \<and>
   snd (setitem ex_state 1 (KInt 0) (Atom 9)) = Inr () \<and>
   heap (fst (setitem ex_state 1 (KInt 0) (Atom 9))) ! 1 = heap ex_state ! 1 \<and>
   heap (fst (setitem ex_state 1 (KInt 0) (Atom 9))) ! 2 = heap ex_state ! 2 \<and>
   heap ex_state ! 2 = Buf (Dense [1, 2, 3])"
proof -
  have p: "parent ex_ref = 0" by (simp add: ex_ref_def)
  have l: "length (heap ex_state) = 6" by (simp add: ex_state_def)
  from setitem_isolation[OF ex_self ex_view_args, of "KInt 0" "Atom 9"] ex_setitem_run
  have "\<forall>a < length (heap ex_state). a \<noteq> parent ex_ref \<longrightarrow>
       heap (fst (setitem ex_state 1 (KInt 0) (Atom 9))) ! a = heap ex_state ! a"
    by blast
  then have "heap (fst (setitem ex_state 1 (KInt 0) (Atom 9))) ! 1 = heap ex_state ! 1"
    "heap (fst (setitem ex_state 1 (KInt 0) (Atom 9))) ! 2 = heap ex_state ! 2"
    using p l by simp_all
  moreover have "heap ex_state ! 2 = Buf (Dense [1, 2, 3])" by (simp add: ex_state_def)
  ultimately show ?thesis using ex_self ex_view_args ex_setitem_res by blast
qed


subsection \<open>The construction registry\<close>

lemma dispatch_default_iff: "(dispatch c = as_view_default) = (\<exists>n. c = OtherClass n)"
  by (cases c) simp_all

text \<open>Claim C9. Calling \<^verbatim>\<open>as_view\<close> on an object whose class is none of the supported
  shapes (dense array, table, sparse-row, sparse-column, mapping, \<^verbatim>\<open>ZappyArray\<close>) and
  derives from none of them fails at once with \<^verbatim>\<open>NotImplementedError\<close>, whose message
  names the class, and leaves the store as it was; a \<^verbatim>\<open>ZappyArray\<close> is returned unchanged;
  every other supported container is wrapped into a new view object of the matching
  variant that carries the descriptor.\<close>

theorem as_view_dispatch:
  assumes ob: "cell_at s obj = Some (Obj ob)"
  shows "(native_class (cls ob) \<notin> {NdArray, DataFrame, CsrMatrix, CscMatrix, PyDict, ZappyArray} \<longrightarrow>
            as_view s obj va = (s, Inl (NotImplementedError (not_registered (cls ob)))) \<and>
            not_registered (cls ob) =
              ''No view type has been registered for <class '' @ [CHR 0x27] @ class_name (cls ob)
                @ [CHR 0x27] @ ''>'') \<and>
         (cls ob = ZappyArray \<longrightarrow> as_view s obj va = (s, Inr obj)) \<and>
         (native_class (cls ob) \<in> {NdArray, DataFrame, CsrMatrix, CscMatrix, PyDict} \<longrightarrow>
            (\<forall>d. cell_at s (buf ob) = Some (Buf d) \<longrightarrow>
               (\<exists>s' a ov. as_view s obj va = (s', Inr a) \<and> extends s s' \<and>
                  length (heap s) \<le> a \<and> cell_at s' a = Some (Obj ov) \<and>
                  view_args ov = descriptor va \<and>
                  cls ov \<in> {ArrayView, DataFrameView, SparseCSRView, SparseCSCView, DictView} \<and>
                  native_class (cls ov) = native_class (cls ob))))"
proof (intro conjI impI allI)
  assume "native_class (cls ob) \<notin> {NdArray, DataFrame, CsrMatrix, CscMatrix, PyDict, ZappyArray}"
  then have "dispatch (cls ob) = as_view_default" by (cases "cls ob") simp_all
  then show "as_view s obj va = (s, Inl (NotImplementedError (not_registered (cls ob))))"
    using ob by (simp add: as_view_def)
next
  show "not_registered (cls ob) =
              ''No view type has been registered for <class '' @ [CHR 0x27] @ class_name (cls ob)
                @ [CHR 0x27] @ ''>''"
    by (simp add: not_registered_def)
next
  assume "cls ob = ZappyArray"
  then show "as_view s obj va = (s, Inr obj)" using ob by (simp add: as_view_def)
next
  fix d
  assume n: "native_class (cls ob) \<in> {NdArray, DataFrame, CsrMatrix, CscMatrix, PyDict}"
    and d: "cell_at s (buf ob) = Some (Buf d)"
  have len: "obj < length (heap s)" using ob by (auto simp: cell_at_def split: if_splits)
  from n show "\<exists>s' a ov. as_view s obj va = (s', Inr a) \<and> extends s s' \<and>
                  length (heap s) \<le> a \<and> cell_at s' a = Some (Obj ov) \<and>
                  view_args ov = descriptor va \<and>
                  cls ov \<in> {ArrayView, DataFrameView, SparseCSRView, SparseCSCView, DictView} \<and>
                  native_class (cls ov) = native_class (cls ob)"
    using ob d
    by (cases "cls ob")
       (auto simp: as_view_def ArrayView_new_def ViewMixin_new_def ndarray_derive_def
          array_finalize_def new_object_def alloc_def cell_at_def extends_def nth_append)
qed

text \<open>The theorem at a store that holds an object of class \<open>list\<close>.\<close>

theorem as_view_dispatch_witness:
  "cell_at ex_other 0 = Some (Obj \<lparr>cls = OtherClass ''list'', view_args = NoAttr, buf = 1\<rparr>) \<and>
   as_view ex_other 0 None =
     (ex_other, Inl (NotImplementedError
        (''No view type has been registered for <class '' @ [CHR 0x27] @ ''list'' @ [CHR 0x27] @ ''>'')))"
proof -
  have h: "cell_at ex_other 0 = Some (Obj \<lparr>cls = OtherClass ''list'', view_args = NoAttr, buf = 1\<rparr>)"
    by (simp add: cell_at_def ex_other_def)
  have n: "native_class (OtherClass ''list'')
     \<notin> {NdArray, DataFrame, CsrMatrix, CscMatrix, PyDict, ZappyArray}" by simp
  from as_view_dispatch[OF h, of None] n
  have "as_view ex_other 0 None =
     (ex_other, Inl (NotImplementedError
        (''No view type has been registered for <class '' @ [CHR 0x27] @ ''list'' @ [CHR 0x27] @ ''>'')))"
    by simp
  with h show ?thesis by blast
qed

subsection \<open>Dense-array views and array finalization\<close>


lemma cell_at_old: "extends s s' \<Longrightarrow> cell_at s a = Some c \<Longrightarrow> cell_at s' a = Some c"
  by (auto simp: cell_at_def extends_def split: if_splits)






subsection \<open>Copies of views\<close>

lemma native_copy_props:
  assumes a: "cell_at s a = Some (Obj ob)" and d: "cell_at s (buf ob) = Some (Buf d)"
  shows "\<exists>s'. native_copy s a c = (s', Inr (Suc (length (heap s)))) \<and> extends s s' \<and>
           trace s' = trace s \<and>
           cell_at s' (Suc (length (heap s))) =
             Some (Obj \<lparr>cls = c, view_args = NoAttr, buf = length (heap s)\<rparr>) \<and>
           cell_at s' (length (heap s)) = Some (Buf d) \<and>
           length (heap s') = Suc (Suc (length (heap s)))"
proof -
  have oc: "obj_content s a = Some d" using a d by (simp add: obj_content_def)
  obtain s1 a' where no: "new_object s c NoAttr d = (s1, a')" by (cases "new_object s c NoAttr d")
  note np = new_object_props[OF no]
  have "native_copy s a c = (s1, Inr a')" using oc no by (simp add: native_copy_def)
  with np show ?thesis by (simp add: cell_at_def)
qed

text \<open>Claim C6. For every view variant, \<^verbatim>\<open>copy\<close> returns a new plain object of the native
  class (\<^verbatim>\<open>ndarray\<close> for a dense-array view, \<^verbatim>\<open>csr_matrix\<close> for a sparse-row view,
  \<^verbatim>\<open>csc_matrix\<close> for a sparse-column view, \<^verbatim>\<open>dict\<close> for a mapping view,
  \<^verbatim>\<open>DataFrame\<close> for a table view) that has no descriptor and holds the data of the view
  in a buffer of its own; nothing that existed before is changed.\<close>

theorem view_copy_plain:
  assumes self: "cell_at s self = Some (Obj ob)"
    and c: "cls ob \<in> {ArrayView, SparseCSRView, SparseCSCView, DictView, DataFrameView}"
    and d: "cell_at s (buf ob) = Some (Buf d)"
  shows "\<exists>s' a b c'. view_copy s self = (s', Inr a) \<and> extends s s' \<and> trace s' = trace s \<and>
           length (heap s) \<le> a \<and> length (heap s) \<le> b \<and>
           cell_at s' a = Some (Obj \<lparr>cls = c', view_args = NoAttr, buf = b\<rparr>) \<and>
           cell_at s' b = Some (Buf d) \<and>
           (cls ob = ArrayView \<longrightarrow> c' = NdArray) \<and>
           (cls ob = SparseCSRView \<longrightarrow> c' = CsrMatrix) \<and>
           (cls ob = SparseCSCView \<longrightarrow> c' = CscMatrix) \<and>
           (cls ob = DictView \<longrightarrow> c' = PyDict) \<and>
           (cls ob = DataFrameView \<longrightarrow> c' = DataFrame)"
proof -
  have direct: ?thesis if vc: "view_copy s self = native_copy s self c'"
    and cc: "cls ob = ArrayView \<longrightarrow> c' = NdArray" "cls ob = SparseCSRView \<longrightarrow> c' = CsrMatrix"
      "cls ob = SparseCSCView \<longrightarrow> c' = CscMatrix" "cls ob = DictView \<longrightarrow> c' = PyDict"
      "cls ob = DataFrameView \<longrightarrow> c' = DataFrame" for c'
  proof -
    from native_copy_props[OF self d, of c'] obtain s' where
      "native_copy s self c' = (s', Inr (Suc (length (heap s))))" "extends s s'"
      "trace s' = trace s"
      "cell_at s' (Suc (length (heap s))) =
             Some (Obj \<lparr>cls = c', view_args = NoAttr, buf = length (heap s)\<rparr>)"
      "cell_at s' (length (heap s)) = Some (Buf d)" by blast
    with vc cc show ?thesis
      by (intro exI[of _ s'] exI[of _ "Suc (length (heap s))"] exI[of _ "length (heap s)"]
          exI[of _ c']) simp
  qed
  have sparse: ?thesis if vc: "view_copy s self =
        (case alloc s (Obj \<lparr>cls = c', view_args = NoAttr, buf = buf ob\<rparr>) of
           (s1, m) \<Rightarrow> native_copy s1 m c')"
    and cc: "cls ob = ArrayView \<longrightarrow> c' = NdArray" "cls ob = SparseCSRView \<longrightarrow> c' = CsrMatrix"
      "cls ob = SparseCSCView \<longrightarrow> c' = CscMatrix" "cls ob = DictView \<longrightarrow> c' = PyDict"
      "cls ob = DataFrameView \<longrightarrow> c' = DataFrame" for c'
  proof -
    obtain s1 m where al: "alloc s (Obj \<lparr>cls = c', view_args = NoAttr, buf = buf ob\<rparr>) = (s1, m)"
      by (cases "alloc s (Obj \<lparr>cls = c', view_args = NoAttr, buf = buf ob\<rparr>)")
    note ap = alloc_props[OF al]
    have m: "cell_at s1 m = Some (Obj \<lparr>cls = c', view_args = NoAttr, buf = buf ob\<rparr>)"
      using ap by (simp add: cell_at_def)
    have d1: "cell_at s1 (buf \<lparr>cls = c', view_args = NoAttr, buf = buf ob\<rparr>) = Some (Buf d)"
      using cell_at_old[OF ap(1) d] by simp
    from native_copy_props[OF m d1, of c'] obtain s' where
      nc: "native_copy s1 m c' = (s', Inr (Suc (length (heap s1))))" "extends s1 s'"
      "trace s' = trace s1"
      "cell_at s' (Suc (length (heap s1))) =
             Some (Obj \<lparr>cls = c', view_args = NoAttr, buf = length (heap s1)\<rparr>)"
      "cell_at s' (length (heap s1)) = Some (Buf d)" by blast
    have e: "extends s s'" using ap(1) nc(2) by (rule extends_trans)
    have "view_copy s self = (s', Inr (Suc (length (heap s1))))" using vc al nc(1) by simp
    with e nc ap cc show ?thesis
      by (intro exI[of _ s'] exI[of _ "Suc (length (heap s1))"] exI[of _ "length (heap s1)"]
          exI[of _ c']) simp
  qed
  from c consider "cls ob = ArrayView" | "cls ob = SparseCSRView" | "cls ob = SparseCSCView"
    | "cls ob = DictView" | "cls ob = DataFrameView" by auto
  then show ?thesis
  proof cases
    case 1
    show ?thesis by (rule direct[of NdArray]) (use 1 self in \<open>simp_all add: view_copy_def\<close>)
  next
    case 2
    show ?thesis by (rule sparse[of CsrMatrix]) (use 2 self in \<open>simp_all add: view_copy_def\<close>)
  next
    case 3
    show ?thesis by (rule sparse[of CscMatrix]) (use 3 self in \<open>simp_all add: view_copy_def\<close>)
  next
    case 4
    show ?thesis by (rule direct[of PyDict]) (use 4 self in \<open>simp_all add: view_copy_def\<close>)
  next
    case 5
    show ?thesis by (rule direct[of DataFrame]) (use 5 self in \<open>simp_all add: view_copy_def\<close>)
  qed
qed

text \<open>The theorem at the small store: the copy of the dense-array view at address 1.\<close>

theorem view_copy_plain_witness:
  "cell_at ex_state 1 = Some (Obj ex_view) \<and>
   cls ex_view = ArrayView \<and>
   cell_at ex_state (buf ex_view) = Some (Buf (Dense [1, 2, 3])) \<and>
   (\<exists>s' a b. view_copy ex_state 1 = (s', Inr a) \<and>
      cell_at s' a = Some (Obj \<lparr>cls = NdArray, view_args = NoAttr, buf = b\<rparr>) \<and>
      cell_at s' b = Some (Buf (Dense [1, 2, 3])))"
proof -
  have c: "cls ex_view = ArrayView" by (simp add: ex_view_def)
  have c': "cls ex_view \<in> {ArrayView, SparseCSRView, SparseCSCView, DictView, DataFrameView}"
    using c by simp
  have d: "cell_at ex_state (buf ex_view) = Some (Buf (Dense [1, 2, 3]))"
    by (simp add: cell_at_def ex_state_def ex_view_def)
  from view_copy_plain[OF ex_self c' d] c
  have "\<exists>s' a b. view_copy ex_state 1 = (s', Inr a) \<and>
      cell_at s' a = Some (Obj \<lparr>cls = NdArray, view_args = NoAttr, buf = b\<rparr>) \<and>
      cell_at s' b = Some (Buf (Dense [1, 2, 3]))"
    by blast
  with ex_self c d show ?thesis by blast
qed

end
